theory Spec2Isabelle
  imports Complex_Main "HOL-Library.Word"
begin

unbundle bit_operations_syntax

section \<open>The pool allocator of cpp-utils (gu/memory/pool.h, pool.cpp)\<close>

text \<open>
  \<open>size_t\<close> and \<open>u8 *\<close> are 64-bit words: \<open>+\<close>, \<open>-\<close> and \<open>*\<close> wrap as the
  unsigned arithmetic of the source does.  A \<open>Dynamic_Array<u8 *>\<close> is a list:
  \<open>add\<close> appends, \<open>*(end(a) - 1)\<close> is \<open>last\<close>, \<open>pop\<close> is \<open>butlast\<close>, and
  \<open>a.Count = 0\<close> leaves the empty list.
\<close>

type_synonym size_t = "64 word"
type_synonym u8_ptr = "64 word"
type_synonym memory = "64 word \<Rightarrow> 8 word"

text \<open>
  Modelled from the spec: the raw memory source behind \<open>New<u8>\<close> and \<open>Delete\<close>
  (\<open>reserve(size) -> ptr | failure\<close>, \<open>release(ptr)\<close>), whose code is not part of the
  sources.  \<open>Supply\<close> lists the addresses the source hands out next, so every behaviour of
  a real heap is some supply; an exhausted supply is the failure and yields the null
  pointer.  \<open>Live\<close> is the set of blocks reserved and not yet released, \<open>Requests\<close> the
  sizes asked for, oldest first.
\<close>

record Allocator_Closure =
  Supply :: "u8_ptr list"
  Live :: "u8_ptr set"
  Requests :: "size_t list"

definition New_u8 :: "size_t \<Rightarrow> Allocator_Closure \<Rightarrow> u8_ptr \<times> Allocator_Closure" where
  "New_u8 n a =
     (case Supply a of
        [] \<Rightarrow> (0, a\<lparr>Requests := Requests a @ [n]\<rparr>)
      | b # bs \<Rightarrow> (b, a\<lparr>Supply := bs, Live := insert b (Live a), Requests := Requests a @ [n]\<rparr>))"

definition Delete :: "u8_ptr \<Rightarrow> Allocator_Closure \<Rightarrow> Allocator_Closure" where
  "Delete p a = a\<lparr>Live := Live a - {p}\<rparr>"

record Pool =
  BlockSize :: size_t
  Alignment :: size_t
  UnusedMemblocks :: "u8_ptr list"
  UsedMemblocks :: "u8_ptr list"
  ObsoletedMemblocks :: "u8_ptr list"
  CurrentMemblock :: u8_ptr
  CurrentPosition :: u8_ptr
  BytesLeft :: size_t
  BlockAllocator :: Allocator_Closure

definition resize_blocks :: "Pool \<Rightarrow> size_t \<Rightarrow> Pool" where
  "resize_blocks pool blockSize =
     (let p1 = pool\<lparr>BlockSize := blockSize\<rparr>;
          p2 = (if CurrentMemblock p1 \<noteq> 0
                then p1\<lparr>ObsoletedMemblocks := ObsoletedMemblocks p1 @ [CurrentMemblock p1]\<rparr>
                else p1);
          p3 = p2\<lparr>ObsoletedMemblocks := ObsoletedMemblocks p2 @ UsedMemblocks p2\<rparr>
      in p3\<lparr>CurrentMemblock := 0, UsedMemblocks := []\<rparr>)"

definition cycle_new_block :: "Pool \<Rightarrow> Pool" where
  "cycle_new_block pool =
     (let p1 = (if CurrentMemblock pool \<noteq> 0
                then pool\<lparr>UsedMemblocks := UsedMemblocks pool @ [CurrentMemblock pool]\<rparr>
                else pool);
          (newBlock, p2) =
            (if UnusedMemblocks p1 \<noteq> []
             then (last (UnusedMemblocks p1), p1\<lparr>UnusedMemblocks := butlast (UnusedMemblocks p1)\<rparr>)
             else (let (b, a) = New_u8 (BlockSize p1) (BlockAllocator p1)
                   in (b, p1\<lparr>BlockAllocator := a\<rparr>)))
      in p2\<lparr>BytesLeft := BlockSize p2, CurrentPosition := newBlock, CurrentMemblock := newBlock\<rparr>)"

text \<open>
  The loop \<open>while (bs < size) bs *= 2;\<close> of \<open>ensure_memory_exists\<close>.  It need not end
  (a block size of 0, or one that doubles past \<open>2^64\<close> to 0, stays below \<open>size\<close> for
  ever), so it is a partial function: \<open>None\<close> is the run that never returns.
\<close>

partial_function (option) double_until :: "size_t \<Rightarrow> size_t \<Rightarrow> size_t option" where
  "double_until bs sz = (if bs < sz then double_until (bs * 2) sz else Some bs)"

definition ensure_memory_exists :: "Pool \<Rightarrow> size_t \<Rightarrow> Pool option" where
  "ensure_memory_exists pool sz =
     (case double_until (BlockSize pool) sz of
        None \<Rightarrow> None
      | Some bs \<Rightarrow>
          Some (cycle_new_block (if bs > BlockSize pool then resize_blocks pool bs else pool)))"

text \<open>
  \<open>get\<close>.  \<open>size % pool.Alignment\<close> with \<open>Alignment = 0\<close> is a division by zero, which
  traps; like the loop that never ends it returns nothing, so it is \<open>None\<close> as well.
\<close>

definition get :: "Pool \<Rightarrow> size_t \<Rightarrow> (u8_ptr \<times> Pool) option" where
  "get pool sz0 =
     (if Alignment pool = 0 then None
      else
        (let extra = Alignment pool - (sz0 mod Alignment pool);
             sz = sz0 + extra
         in case (if BytesLeft pool < sz then ensure_memory_exists pool sz else Some pool) of
              None \<Rightarrow> None
            | Some p1 \<Rightarrow>
                Some (CurrentPosition p1,
                      p1\<lparr>CurrentPosition := CurrentPosition p1 + sz, BytesLeft := BytesLeft p1 - sz\<rparr>)))"

definition reset :: "Pool \<Rightarrow> Pool" where
  "reset pool =
     (let p1 = (if CurrentMemblock pool \<noteq> 0
                then pool\<lparr>UnusedMemblocks := UnusedMemblocks pool @ [CurrentMemblock pool],
                          CurrentMemblock := 0\<rparr>
                else pool);
          p2 = p1\<lparr>UnusedMemblocks := UnusedMemblocks p1 @ UsedMemblocks p1\<rparr>;
          p3 = p2\<lparr>UsedMemblocks := []\<rparr>;
          p4 = p3\<lparr>BlockAllocator := fold Delete (ObsoletedMemblocks p3) (BlockAllocator p3)\<rparr>;
          p5 = p4\<lparr>ObsoletedMemblocks := []\<rparr>
      in cycle_new_block p5)"


text \<open>
  \<open>CopyMemory(dest, src, num)\<close> of memory.cpp: 32-bit units when both pointers and the
  count are multiples of 4, single bytes otherwise, always from low to high addresses.
\<close>

fun copy_u8 :: "nat \<Rightarrow> u8_ptr \<Rightarrow> u8_ptr \<Rightarrow> memory \<Rightarrow> memory" where
  "copy_u8 0 d s m = m"
| "copy_u8 (Suc n) d s m = copy_u8 n (d + 1) (s + 1) (m(d := m s))"

fun copy_u32 :: "nat \<Rightarrow> u8_ptr \<Rightarrow> u8_ptr \<Rightarrow> memory \<Rightarrow> memory" where
  "copy_u32 0 d s m = m"
| "copy_u32 (Suc n) d s m =
     copy_u32 n (d + 4) (s + 4)
       (m(d := m s, d + 1 := m (s + 1), d + 2 := m (s + 2), d + 3 := m (s + 3)))"

definition CopyMemory :: "u8_ptr \<Rightarrow> u8_ptr \<Rightarrow> size_t \<Rightarrow> memory \<Rightarrow> memory" where
  "CopyMemory dest src num m =
     (if dest mod 4 = 0 \<and> src mod 4 = 0 \<and> num mod 4 = 0
      then copy_u32 (unat (num div 4)) dest src m
      else copy_u8 (unat num) dest src m)"

datatype Allocator_Mode = ALLOCATE | RESIZE | FREE | FREE_ALL

text \<open>
  \<open>__pool_allocator\<close>: the returned pointer, the pool and the memory afterwards.  The
  \<open>RESIZE\<close> branch calls \<open>CopyMemory(oldMemory, newMemory, oldSize)\<close>; the first
  argument of \<open>CopyMemory\<close> is the destination.
\<close>

definition pool_allocator ::
  "Allocator_Mode \<Rightarrow> Pool \<Rightarrow> size_t \<Rightarrow> u8_ptr \<Rightarrow> size_t \<Rightarrow> memory \<Rightarrow> (u8_ptr \<times> Pool \<times> memory) option" where
  "pool_allocator mode pool sz oldMemory oldSize m =
     (case mode of
        ALLOCATE \<Rightarrow> (case get pool sz of None \<Rightarrow> None | Some (r, p1) \<Rightarrow> Some (r, p1, m))
      | RESIZE \<Rightarrow>
          (case get pool sz of
             None \<Rightarrow> None
           | Some (newMemory, p1) \<Rightarrow> Some (newMemory, p1, CopyMemory oldMemory newMemory oldSize m))
      | FREE \<Rightarrow> Some (0, pool, m)
      | FREE_ALL \<Rightarrow> Some (0, reset pool, m))"

text \<open>A pool as \<open>Pool pool;\<close> declares it, with the given nominal block size and alignment.\<close>

definition fresh_pool :: "size_t \<Rightarrow> size_t \<Rightarrow> u8_ptr list \<Rightarrow> Pool" where
  "fresh_pool bs al supply =
     \<lparr>BlockSize = bs, Alignment = al, UnusedMemblocks = [], UsedMemblocks = [],
      ObsoletedMemblocks = [], CurrentMemblock = 0, CurrentPosition = 0, BytesLeft = 0,
      BlockAllocator = \<lparr>Supply = supply, Live = {}, Requests = []\<rparr>\<rparr>"

declare double_until.simps [code]

subsection \<open>Vocabulary for the pool's properties\<close>

text \<open>The padding \<open>extra\<close> that \<open>get\<close> adds to a request (first line of \<open>get\<close>).\<close>

definition get_extra :: "Pool \<Rightarrow> size_t \<Rightarrow> size_t" where
  "get_extra pool s = Alignment pool - (s mod Alignment pool)"

text \<open>
  The cursor of the current block is in step with its byte counter: the offset of the
  cursor from the block's start is a multiple of the alignment, and offset plus remaining
  bytes stay within the nominal block size.  A fresh pool and every pool that
  \<open>cycle_new_block\<close> leaves are in this state.
\<close>

definition bump_ok :: "Pool \<Rightarrow> bool" where
  "bump_ok pool \<longleftrightarrow>
     unat (CurrentPosition pool - CurrentMemblock pool) + unat (BytesLeft pool) \<le> unat (BlockSize pool) \<and>
     unat (Alignment pool) dvd unat (CurrentPosition pool - CurrentMemblock pool)"




text \<open>
  The states of the scenario "fresh pool, nominal block size 16, alignment 8, raw blocks
  at 0x1000 and 0x2000": after \<open>get(pool, 10)\<close> and after the following \<open>get(pool, 20)\<close>.
\<close>

definition pool_after_first :: Pool where
  "pool_after_first =
     \<lparr>BlockSize = 16, Alignment = 8, UnusedMemblocks = [], UsedMemblocks = [],
      ObsoletedMemblocks = [], CurrentMemblock = 0x1000, CurrentPosition = 0x1010, BytesLeft = 0,
      BlockAllocator = \<lparr>Supply = [0x2000], Live = {0x1000}, Requests = [16]\<rparr>\<rparr>"

definition pool_after_second :: Pool where
  "pool_after_second =
     \<lparr>BlockSize = 32, Alignment = 8, UnusedMemblocks = [], UsedMemblocks = [],
      ObsoletedMemblocks = [0x1000], CurrentMemblock = 0x2000, CurrentPosition = 0x2018, BytesLeft = 8,
      BlockAllocator = \<lparr>Supply = [], Live = {0x1000, 0x2000}, Requests = [16, 32]\<rparr>\<rparr>"

definition blank_memory :: memory where
  "blank_memory = (\<lambda>a. 0)"


text \<open>
  A pool holding two blocks of 16 bytes: the state after two calls \<open>get(pool, 10)\<close> on a
  fresh pool with nominal block size 16 and alignment 8.
\<close>

definition pool_two_blocks :: Pool where
  "pool_two_blocks =
     \<lparr>BlockSize = 16, Alignment = 8, UnusedMemblocks = [], UsedMemblocks = [0x1000],
      ObsoletedMemblocks = [], CurrentMemblock = 0x2000, CurrentPosition = 0x2010, BytesLeft = 0,
      BlockAllocator = \<lparr>Supply = [], Live = {0x1000, 0x2000}, Requests = [16, 16]\<rparr>\<rparr>"

section \<open>The temporary allocator of light-std (lstd/memory/allocator.cpp)\<close>

text \<open>
  The chain of pages \<open>Base \<rightarrow> Next \<rightarrow> ...\<close> is the base page and the list of overflow
  pages, each overflow page with the address of its node.  \<open>Malloc\<close> is the raw source
  again; both \<open>new (Malloc) page\<close> and \<open>new (Malloc) char[n]\<close> draw from its supply.
  The four modes are all the values of \<open>allocator_mode\<close>, so the \<open>default\<close> branch of
  the \<open>switch\<close> is never taken.
\<close>

record page =
  Storage :: u8_ptr
  Reserved :: size_t
  Used :: size_t

record temporary_allocator_data =
  Base :: page
  Overflow :: "(u8_ptr \<times> page) list"
  TotalUsed :: size_t

datatype allocator_mode = mode_ALLOCATE | mode_REALLOCATE | mode_FREE | mode_FREE_ALL

datatype assertion = Assert_no_next_page | Assert_result

definition Malloc_new :: "size_t \<Rightarrow> Allocator_Closure \<Rightarrow> u8_ptr \<times> Allocator_Closure" where
  "Malloc_new n a = New_u8 n a"

text \<open>
  Modelled from the spec: \<open>ceil_pow_of_2\<close> (the spec's \<open>next_pow2\<close>), the least power of
  two that is not below its argument; its code is not part of the sources.
\<close>

function pow2_from :: "nat \<Rightarrow> nat \<Rightarrow> nat" where
  "pow2_from p v = (if 0 < p \<and> p < v then pow2_from (2 * p) v else p)"
  by pat_completeness auto
termination
  by (relation "measure (\<lambda>(p, v). v - p)") auto

definition ceil_pow_of_2 :: "nat \<Rightarrow> nat" where
  "ceil_pow_of_2 v = pow2_from 1 v"

text \<open>
  \<open>(size_t) ceil(p->Reserved * (log2(p->Reserved * 10.0) / 3))\<close>.  The \<open>double\<close>
  arithmetic of the source is read as arithmetic on the reals.
\<close>

definition loggedSize :: "size_t \<Rightarrow> nat" where
  "loggedSize r = nat \<lceil>real (unat r) * (log 2 (real (unat r) * 10) / 3)\<rceil>"

definition reserveTarget :: "size_t \<Rightarrow> size_t \<Rightarrow> size_t" where
  "reserveTarget sz r =
     (max (of_nat (ceil_pow_of_2 (unat (sz * 2)))) (of_nat (ceil_pow_of_2 (loggedSize r))) + 8192 - 1)
       AND (- 8192)"

text \<open>The lazy initialisation at the head of \<open>temporary_allocator\<close>.\<close>

definition temporary_init ::
  "temporary_allocator_data \<Rightarrow> size_t \<Rightarrow> Allocator_Closure \<Rightarrow> temporary_allocator_data \<times> Allocator_Closure" where
  "temporary_init d sz a =
     (if Reserved (Base d) = 0
      then (let startingSize = (sz * 2 + 8192 - 1) AND (- 8192);
                (st, a1) = Malloc_new startingSize a
            in (d\<lparr>Base := (Base d)\<lparr>Storage := st, Reserved := startingSize\<rparr>\<rparr>, a1))
      else (d, a))"

text \<open>
  The loop \<open>while (p->Next) { if (p->Used + size < p->Reserved) break; p = p->Next; }\<close>:
  the index, in the chain, of the page it stops at.
\<close>

fun scan_pages :: "page list \<Rightarrow> size_t \<Rightarrow> nat" where
  "scan_pages (p # q # ps) sz = (if Used p + sz < Reserved p then 0 else Suc (scan_pages (q # ps) sz))"
| "scan_pages ps sz = 0"

definition chain :: "temporary_allocator_data \<Rightarrow> page list" where
  "chain d = Base d # map snd (Overflow d)"

definition bump_page :: "temporary_allocator_data \<Rightarrow> nat \<Rightarrow> size_t \<Rightarrow> temporary_allocator_data" where
  "bump_page d i sz =
     (case i of
        0 \<Rightarrow> d\<lparr>Base := (Base d)\<lparr>Used := Used (Base d) + sz\<rparr>\<rparr>
      | Suc j \<Rightarrow>
          d\<lparr>Overflow := (Overflow d)[j := (fst (Overflow d ! j),
                                           (snd (Overflow d ! j))\<lparr>Used := Used (snd (Overflow d ! j)) + sz\<rparr>)]\<rparr>)"

definition temporary_ALLOCATE ::
  "temporary_allocator_data \<Rightarrow> size_t \<Rightarrow> Allocator_Closure \<Rightarrow>
     assertion + (u8_ptr \<times> temporary_allocator_data \<times> Allocator_Closure)" where
  "temporary_ALLOCATE d sz a =
     (let i = scan_pages (chain d) sz;
          p = chain d ! i
      in if Used p + sz \<ge> Reserved p
         then (if Suc i < length (chain d) then Inl Assert_no_next_page
               else (let (node, a1) = Malloc_new 32 a;
                         target = reserveTarget sz (Reserved p);
                         (st, a2) = Malloc_new target a1;
                         np = \<lparr>Storage = st, Reserved = target, Used = 0\<rparr>;
                         d1 = d\<lparr>Overflow := Overflow d @ [(node, np)]\<rparr>;
                         result = Storage np + Used np
                     in if result = 0 then Inl Assert_result
                        else Inr (result,
                                  (bump_page d1 (Suc i) sz)\<lparr>TotalUsed := TotalUsed d1 + sz\<rparr>, a2)))
         else (let result = Storage p + Used p
               in if result = 0 then Inl Assert_result
                  else Inr (result, (bump_page d i sz)\<lparr>TotalUsed := TotalUsed d + sz\<rparr>, a)))"

text \<open>
  \<open>copy_memory(dst, src, n)\<close>, whose code is not part of the sources, is read as
  \<open>memmove\<close>: the bytes of the source range as they were before the call.
\<close>

definition copy_memory_w :: "u8_ptr \<Rightarrow> u8_ptr \<Rightarrow> size_t \<Rightarrow> memory \<Rightarrow> memory" where
  "copy_memory_w dst src n m = (\<lambda>x. if x - dst < n then m (src + (x - dst)) else m x)"

definition temporary_FREE_ALL ::
  "temporary_allocator_data \<Rightarrow> Allocator_Closure \<Rightarrow> temporary_allocator_data \<times> Allocator_Closure" where
  "temporary_FREE_ALL d a =
     (let targetSize = fold (\<lambda>(node, pg) t. t + Reserved pg) (Overflow d) (Reserved (Base d));
          a1 = fold (\<lambda>(node, pg) x. Delete node (Delete (Storage pg) x)) (Overflow d) a;
          d1 = d\<lparr>Overflow := []\<rparr>;
          (d2, a2) =
            (if targetSize \<noteq> Reserved (Base d1)
             then (let (st, a') = Malloc_new targetSize (Delete (Storage (Base d1)) a1)
                   in (d1\<lparr>Base := (Base d1)\<lparr>Storage := st, Reserved := targetSize\<rparr>\<rparr>, a'))
             else (d1, a1))
      in (d2\<lparr>Base := (Base d2)\<lparr>Used := 0\<rparr>, TotalUsed := 0\<rparr>, a2))"

definition temporary_allocator ::
  "allocator_mode \<Rightarrow> temporary_allocator_data \<Rightarrow> size_t \<Rightarrow> u8_ptr \<Rightarrow> size_t \<Rightarrow>
     Allocator_Closure \<Rightarrow> memory \<Rightarrow>
     assertion + (u8_ptr \<times> temporary_allocator_data \<times> Allocator_Closure \<times> memory)" where
  "temporary_allocator mode d0 sz oldMemory oldSize a0 m =
     (let (d, a) = temporary_init d0 sz a0
      in case mode of
           mode_ALLOCATE \<Rightarrow>
             (case temporary_ALLOCATE d sz a of
                Inl e \<Rightarrow> Inl e
              | Inr (r, d1, a1) \<Rightarrow> Inr (r, d1, a1, m))
         | mode_REALLOCATE \<Rightarrow>
             (if sz \<le> oldSize then Inr (oldMemory, d, a, m)
              else (let (d', a') = temporary_init d sz a
                    in case temporary_ALLOCATE d' sz a' of
                         Inl e \<Rightarrow> Inl e
                       | Inr (r, d1, a1) \<Rightarrow> Inr (r, d1, a1, copy_memory_w r oldMemory oldSize m)))
         | mode_FREE \<Rightarrow> Inr (0, d, a, m)
         | mode_FREE_ALL \<Rightarrow> (let (d1, a1) = temporary_FREE_ALL d a in Inr (0, d1, a1, m)))"

text \<open>
  The scenario of C4: an initialised allocator whose base page has 8 KiB, of which \<open>u\<close>
  are used, and no overflow page; and the sum of the capacities of all pages.
\<close>

definition base_8K :: "u8_ptr \<Rightarrow> size_t \<Rightarrow> size_t \<Rightarrow> temporary_allocator_data" where
  "base_8K st u t = \<lparr>Base = \<lparr>Storage = st, Reserved = 8192, Used = u\<rparr>, Overflow = [], TotalUsed = t\<rparr>"

definition capacities :: "temporary_allocator_data \<Rightarrow> nat" where
  "capacities d = sum_list (map (\<lambda>p. unat (Reserved p)) (chain d))"

section \<open>The allocation front end of lstd (lstd/memory/allocator.h, allocator.cpp)\<close>

text \<open>
  Addresses, sizes and the values of header fields are integers; where the source
  converts to a fixed-width type the truncation is written out (\<open>u16\<close>, \<open>u32\<close>, \<open>u64\<close>,
  \<open>s32\<close>, \<open>s64\<close>).  Memory is a map from addresses to byte values.  Pointer arithmetic
  does not wrap (overflowing a pointer is undefined in the source language).  The layout
  of \<open>allocation_header\<close> is the one of a 64-bit little-endian target: pointers and
  \<open>s64\<close> take 8 bytes at multiples of 8.
\<close>

type_synonym bytes = "int \<Rightarrow> int"

definition u16 :: "int \<Rightarrow> int" where "u16 x = x mod 2 ^ 16"
definition u32 :: "int \<Rightarrow> int" where "u32 x = x mod 2 ^ 32"
definition u64 :: "int \<Rightarrow> int" where "u64 x = x mod 2 ^ 64"
definition s32 :: "int \<Rightarrow> int" where "s32 x = (x + 2 ^ 31) mod 2 ^ 32 - 2 ^ 31"
definition s64 :: "int \<Rightarrow> int" where "s64 x = (x + 2 ^ 63) mod 2 ^ 64 - 2 ^ 63"

text \<open>Stores and loads of little-endian fields of 1, 2 and 8 bytes.\<close>

definition store8 :: "int \<Rightarrow> int \<Rightarrow> bytes \<Rightarrow> bytes" where
  "store8 a v m = (\<lambda>x. if x = a then v mod 256 else m x)"

definition store16 :: "int \<Rightarrow> int \<Rightarrow> bytes \<Rightarrow> bytes" where
  "store16 a v m = (\<lambda>x. if a \<le> x \<and> x < a + 2 then (v div 256 ^ nat (x - a)) mod 256 else m x)"

definition store64 :: "int \<Rightarrow> int \<Rightarrow> bytes \<Rightarrow> bytes" where
  "store64 a v m = (\<lambda>x. if a \<le> x \<and> x < a + 8 then (v div 256 ^ nat (x - a)) mod 256 else m x)"

definition load8 :: "bytes \<Rightarrow> int \<Rightarrow> int" where
  "load8 m a = m a"

definition load16 :: "bytes \<Rightarrow> int \<Rightarrow> int" where
  "load16 m a = m a + 256 * m (a + 1)"

definition load64 :: "bytes \<Rightarrow> int \<Rightarrow> int" where
  "load64 m a =
     m a + 256 * (m (a + 1) + 256 * (m (a + 2) + 256 * (m (a + 3) + 256 * (m (a + 4) +
       256 * (m (a + 5) + 256 * (m (a + 6) + 256 * m (a + 7)))))))"

text \<open>
  \<open>fill_memory\<close>, \<open>zero_memory\<close>, \<open>copy_memory\<close> and \<open>compare_memory\<close> are not part of
  the sources.  They are read as \<open>memset\<close>, \<open>memmove\<close> and a comparison that yields
  \<open>-1\<close> for equal ranges and the index of the first difference otherwise (what
  \<open>verify_header_unlocked\<close> relies on).  A count is converted to \<open>size_t\<close>.
\<close>

definition fill_memory :: "int \<Rightarrow> int \<Rightarrow> int \<Rightarrow> bytes \<Rightarrow> bytes" where
  "fill_memory dst v n m = (\<lambda>x. if dst \<le> x \<and> x < dst + u64 n then v else m x)"

definition zero_memory :: "int \<Rightarrow> int \<Rightarrow> bytes \<Rightarrow> bytes" where
  "zero_memory dst n m = fill_memory dst 0 n m"

definition copy_memory :: "int \<Rightarrow> int \<Rightarrow> int \<Rightarrow> bytes \<Rightarrow> bytes" where
  "copy_memory dst src n m = (\<lambda>x. if dst \<le> x \<and> x < dst + u64 n then m (src + (x - dst)) else m x)"

fun compare_memory :: "bytes \<Rightarrow> int \<Rightarrow> int list \<Rightarrow> int \<Rightarrow> int" where
  "compare_memory m p [] i = - 1"
| "compare_memory m p (b # bs) i = (if m p = b then compare_memory m (p + 1) bs (i + 1) else i)"

text \<open>
  Modelled from the spec: \<open>is_pow_of_2\<close> ("alignment is a power of two"), whose code is
  not part of the sources; the powers of two of a 64-bit integer.
\<close>

definition is_pow_of_2 :: "int \<Rightarrow> bool" where
  "is_pow_of_2 n \<longleftrightarrow> n \<in> (\<lambda>k. 2 ^ k) ` {0 ..< 64 :: nat}"

definition POINTER_SIZE :: int where "POINTER_SIZE = 8"
definition NO_MANS_LAND_SIZE :: int where "NO_MANS_LAND_SIZE = 4"
definition NO_MANS_LAND_FILL :: int where "NO_MANS_LAND_FILL = 0xFD"
definition DEAD_LAND_FILL :: int where "DEAD_LAND_FILL = 0xDD"
definition CLEAN_LAND_FILL :: int where "CLEAN_LAND_FILL = 0xCD"

definition DO_INIT_0 :: "64 word" where "DO_INIT_0 = push_bit 63 1"
definition LEAK :: "64 word" where "LEAK = push_bit 62 1"

text \<open>
  \<open>allocation_header\<close>.  The flag is \<open>DEBUG_MEMORY\<close>: with it the header has the tracker
  links, the ids, the source location, the debug pointer, the leak mark and guard bytes,
  and takes 104 bytes; without it, 40 bytes.
\<close>

definition sizeof_allocation_header :: "bool \<Rightarrow> int" where
  "sizeof_allocation_header dbg = (if dbg then 104 else 40)"

definition off_DEBUG_Next :: int where "off_DEBUG_Next = 0"
definition off_DEBUG_Previous :: int where "off_DEBUG_Previous = 8"
definition off_ID :: int where "off_ID = 16"
definition off_RID :: int where "off_RID = 24"
definition off_FileName :: int where "off_FileName = 32"
definition off_FileLine :: int where "off_FileLine = 40"
definition off_Function :: "bool \<Rightarrow> int" where "off_Function dbg = (if dbg then 48 else 0)"
definition off_Context :: "bool \<Rightarrow> int" where "off_Context dbg = (if dbg then 56 else 8)"
definition off_Size :: "bool \<Rightarrow> int" where "off_Size dbg = (if dbg then 64 else 16)"
definition off_Owner :: "bool \<Rightarrow> int" where "off_Owner dbg = (if dbg then 72 else 24)"
definition off_DEBUG_Pointer :: int where "off_DEBUG_Pointer = 80"
definition off_Alignment :: "bool \<Rightarrow> int" where "off_Alignment dbg = (if dbg then 88 else 32)"
definition off_AlignmentPadding :: "bool \<Rightarrow> int" where "off_AlignmentPadding dbg = (if dbg then 90 else 34)"
definition off_MarkedAsLeak :: int where "off_MarkedAsLeak = 92"

datatype fault =
    Trying_to_access_freed_memory
  | Alignment_is_zero
  | Alignment_smaller_than_pointer_size
  | Alignment_not_a_power_of_2
  | Debug_pointer_does_not_match
  | No_mans_land_before_modified
  | No_mans_land_after_modified
  | Pointer_not_properly_aligned
  | Not_a_power_of_2
  | Null_header
  | Null_DEBUG_Head
  | Block_moved_on_resize
  | Division_by_zero
  | FREE_ALL_not_supported
  | Store_through_null_pointer

text \<open>\<open>calculate_padding_for_pointer\<close> and \<open>calculate_padding_for_pointer_with_header\<close>.\<close>

definition calculate_padding_for_pointer :: "int \<Rightarrow> int \<Rightarrow> fault + int" where
  "calculate_padding_for_pointer ptr alignment =
     (if \<not> (alignment > 0 \<and> is_pow_of_2 alignment) then Inl Not_a_power_of_2
      else Inr (u16 (u64 ((u64 (u64 ptr + u64 (alignment - 1)) AND u64 (- alignment)) - u64 ptr))))"

definition calculate_padding_for_pointer_with_header :: "int \<Rightarrow> int \<Rightarrow> int \<Rightarrow> fault + int" where
  "calculate_padding_for_pointer_with_header ptr alignment headerSize =
     (case calculate_padding_for_pointer ptr alignment of
        Inl e \<Rightarrow> Inl e
      | Inr padding \<Rightarrow>
          (if padding < headerSize
           then (let hs = u32 (headerSize - padding)
                 in if hs mod u32 alignment \<noteq> 0
                    then Inr (u16 (padding + u32 (u32 alignment * u32 (1 + hs div u32 alignment))))
                    else Inr (u16 (padding + u32 (u32 alignment * (hs div u32 alignment)))))
           else Inr padding))"


text \<open>
  An allocator function (\<open>allocator_func_t\<close>) maps the mode, the context pointer, the
  size, the old block, its old size and the options to the returned pointer and the
  options it leaves behind the \<open>u64 *\<close>.  It is arbitrary code: it reads and writes
  memory, so it also maps the memory before the call to the memory after it, and \<open>'s\<close>,
  the state the allocators keep outside memory.  What a function pointer stored in a
  header calls is given by a table \<open>ft\<close> from addresses of functions to their
  behaviour.  The null pointer is the "must-move" answer of \<open>RESIZE\<close>; \<open>(void *) -1\<close> is
  the "unsupported" answer of \<open>FREE_ALL\<close>.
\<close>

type_synonym 's allocator_func =
  "Allocator_Mode \<Rightarrow> int \<Rightarrow> int \<Rightarrow> int \<Rightarrow> int \<Rightarrow> 64 word \<Rightarrow> bytes \<Rightarrow> 's \<Rightarrow>
     int \<times> 64 word \<times> bytes \<times> 's"

text \<open>
  The state of the program: memory, the statics \<open>allocator::DEBUG_Head\<close> and
  \<open>allocator::AllocationCount\<close>, the state of the allocators, and a log of the calls made
  to allocator functions (mode, function, context, size, old block, old size), oldest
  first.  The log is not in the source; it records what the front end passes on.
\<close>

record 's world =
  Mem :: bytes
  DEBUG_Head :: int
  AllocationCount :: int
  Backing :: 's
  Calls :: "(Allocator_Mode \<times> int \<times> int \<times> int \<times> int \<times> int) list"

text \<open>The fields of the implicit \<open>Context\<close> that the front end reads.\<close>

record implicit_context =
  AllocOptions :: "64 word"
  AllocAlignment :: int

definition call_allocator ::
  "(int \<Rightarrow> 's allocator_func) \<Rightarrow> int \<Rightarrow> Allocator_Mode \<Rightarrow> int \<Rightarrow> int \<Rightarrow> int \<Rightarrow> int \<Rightarrow> 64 word \<Rightarrow>
     's world \<Rightarrow> int \<times> 64 word \<times> 's world" where
  "call_allocator ft f mode c sz oldMemory oldSize options w =
     (let (r, options', m, st) = ft f mode c sz oldMemory oldSize options (Mem w) (Backing w)
      in (r, options',
          w\<lparr>Mem := m, Backing := st, Calls := Calls w @ [(mode, f, c, sz, oldMemory, oldSize)]\<rparr>))"

subsection \<open>The debug tracker list\<close>

definition DEBUG_unlink_header :: "int \<Rightarrow> 's world \<Rightarrow> fault + 's world" where
  "DEBUG_unlink_header header w =
     (if header = 0 then Inl Null_header
      else if DEBUG_Head w = 0 then Inl Null_DEBUG_Head
      else
        (let w1 = (if header = DEBUG_Head w
                   then w\<lparr>DEBUG_Head := load64 (Mem w) (header + off_DEBUG_Next)\<rparr> else w);
             m1 = Mem w1;
             m2 = (if load64 m1 (header + off_DEBUG_Next) \<noteq> 0
                   then store64 (load64 m1 (header + off_DEBUG_Next) + off_DEBUG_Previous)
                          (load64 m1 (header + off_DEBUG_Previous)) m1
                   else m1);
             m3 = (if load64 m2 (header + off_DEBUG_Previous) \<noteq> 0
                   then store64 (load64 m2 (header + off_DEBUG_Previous) + off_DEBUG_Next)
                          (load64 m2 (header + off_DEBUG_Next)) m2
                   else m2)
         in Inr (w1\<lparr>Mem := m3\<rparr>)))"

definition DEBUG_add_header :: "int \<Rightarrow> 's world \<Rightarrow> 's world" where
  "DEBUG_add_header header w =
     (let m1 = store64 (header + off_DEBUG_Next) (DEBUG_Head w) (Mem w);
          m2 = (if DEBUG_Head w \<noteq> 0
                then store64 (DEBUG_Head w + off_DEBUG_Previous) header m1 else m1)
      in w\<lparr>Mem := m2, DEBUG_Head := header\<rparr>)"

definition DEBUG_swap_header :: "int \<Rightarrow> int \<Rightarrow> 's world \<Rightarrow> fault + 's world" where
  "DEBUG_swap_header oldHeader newHeader w =
     (let prev = load64 (Mem w) (oldHeader + off_DEBUG_Previous);
          next = load64 (Mem w) (oldHeader + off_DEBUG_Next)
      in if DEBUG_Head w = 0 then Inl Null_DEBUG_Head
         else
           (let w1 = (if prev \<noteq> 0
                      then w\<lparr>Mem := store64 (newHeader + off_DEBUG_Previous) prev
                                      (store64 (prev + off_DEBUG_Next) newHeader (Mem w))\<rparr>
                      else w\<lparr>DEBUG_Head := newHeader\<rparr>);
                w2 = (if next \<noteq> 0
                      then w1\<lparr>Mem := store64 (newHeader + off_DEBUG_Next) next
                                       (store64 (next + off_DEBUG_Previous) newHeader (Mem w1))\<rparr>
                      else w1)
            in Inr w2))"

subsection \<open>Verification of headers\<close>

definition verify_header_unlocked :: "bool \<Rightarrow> bytes \<Rightarrow> int \<Rightarrow> fault option" where
  "verify_header_unlocked dbg m header =
     (if \<not> dbg then None
      else if compare_memory m header
                (replicate (nat (sizeof_allocation_header dbg)) DEAD_LAND_FILL) 0 = - 1
      then Some Trying_to_access_freed_memory
      else if load16 m (header + off_Alignment dbg) = 0 then Some Alignment_is_zero
      else if load16 m (header + off_Alignment dbg) < POINTER_SIZE
      then Some Alignment_smaller_than_pointer_size
      else if \<not> is_pow_of_2 (load16 m (header + off_Alignment dbg))
      then Some Alignment_not_a_power_of_2
      else if load64 m (header + off_DEBUG_Pointer) \<noteq> header + sizeof_allocation_header dbg
      then Some Debug_pointer_does_not_match
      else
        (let user = header + sizeof_allocation_header dbg;
             noMansLand = replicate (nat NO_MANS_LAND_SIZE) NO_MANS_LAND_FILL
         in if compare_memory m (user - NO_MANS_LAND_SIZE) noMansLand 0 \<noteq> - 1
            then Some No_mans_land_before_modified
            else if compare_memory m
                      (load64 m (header + off_DEBUG_Pointer) + s64 (load64 m (header + off_Size dbg)))
                      noMansLand 0 \<noteq> - 1
            then Some No_mans_land_after_modified
            else None))"

definition verify_header :: "bool \<Rightarrow> 's world \<Rightarrow> int \<Rightarrow> fault option" where
  "verify_header dbg w header = verify_header_unlocked dbg (Mem w) header"

text \<open>
  The walk of \<open>verify_heap\<close> over the tracker list.  On a list that runs in a circle it
  does not end; that run is \<open>None\<close>.
\<close>

partial_function (option) verify_walk :: "bytes \<Rightarrow> int \<Rightarrow> fault option option" where
  "verify_walk m it =
     (if it = 0 then Some None
      else case verify_header_unlocked True m it of
             Some e \<Rightarrow> Some (Some e)
           | None \<Rightarrow> verify_walk m (load64 m (it + off_DEBUG_Next)))"

definition verify_heap :: "bool \<Rightarrow> 's world \<Rightarrow> fault option option" where
  "verify_heap dbg w = (if dbg then verify_walk (Mem w) (DEBUG_Head w) else Some None)"

subsection \<open>\<open>encode_header\<close>\<close>

text \<open>
  What \<open>encode_header\<close> writes, given the place \<open>result\<close> of the header: the fields,
  the initial contents of the user region, and with \<open>DEBUG_MEMORY\<close> the guard bytes
  ("no man's land") before and after the user region, in the order of the source.
\<close>

definition encode_header_bytes ::
  "bool \<Rightarrow> int \<Rightarrow> int \<Rightarrow> int \<Rightarrow> int \<Rightarrow> int \<Rightarrow> int \<Rightarrow> 64 word \<Rightarrow> int \<Rightarrow> bytes \<Rightarrow> bytes" where
  "encode_header_bytes dbg result userSize align alignmentPadding f c flags count m0 =
     (let m1 = (if dbg
                then store64 (result + off_RID) 0
                       (store64 (result + off_ID) (u32 count)
                         (store64 (result + off_DEBUG_Previous) 0
                           (store64 (result + off_DEBUG_Next) 0 m0)))
                else m0);
          m2 = store64 (result + off_Owner dbg) 0
                 (store16 (result + off_AlignmentPadding dbg) (u16 alignmentPadding)
                   (store16 (result + off_Alignment dbg) (u16 align)
                     (store64 (result + off_Size dbg) userSize
                       (store64 (result + off_Context dbg) c
                         (store64 (result + off_Function dbg) f m1)))));
          p' = result + sizeof_allocation_header dbg;
          m3 = (if flags AND DO_INIT_0 \<noteq> 0 then zero_memory p' userSize m2
                else if dbg then fill_memory p' CLEAN_LAND_FILL userSize m2
                else m2)
      in if dbg
         then store8 (result + off_MarkedAsLeak) (if flags AND LEAK \<noteq> 0 then 1 else 0)
                (store64 (result + off_DEBUG_Pointer) p'
                  (fill_memory (p' + userSize) NO_MANS_LAND_FILL NO_MANS_LAND_SIZE
                    (fill_memory (p' - NO_MANS_LAND_SIZE) NO_MANS_LAND_FILL
                       NO_MANS_LAND_SIZE m3)))
         else m3)"

text \<open>
  \<open>encode_header\<close> stores the fields through \<open>(char *) p + alignmentPadding\<close> with no
  test of \<open>p\<close>.  For the null block, the answer of an allocator function that failed,
  these are stores through a pointer made from null: the run stops there.
\<close>

definition encode_header ::
  "bool \<Rightarrow> int \<Rightarrow> int \<Rightarrow> int \<Rightarrow> int \<Rightarrow> int \<Rightarrow> 64 word \<Rightarrow> 's world \<Rightarrow> fault + (int \<times> 's world)" where
  "encode_header dbg p userSize align f c flags w =
     (case calculate_padding_for_pointer_with_header p (s32 align)
             (u32 (sizeof_allocation_header dbg)) of
        Inl e \<Rightarrow> Inl e
      | Inr padding \<Rightarrow>
          (let alignmentPadding = u32 (padding - sizeof_allocation_header dbg);
               result = p + alignmentPadding;
               p' = result + sizeof_allocation_header dbg
           in if p = 0 then Inl Store_through_null_pointer
              else if (u64 p' AND u64 (- align)) \<noteq> u64 p' then Inl Pointer_not_properly_aligned
              else Inr (p', w\<lparr>Mem := encode_header_bytes dbg result userSize align alignmentPadding
                                        f c flags (AllocationCount w) (Mem w),
                               AllocationCount :=
                                 (if dbg then s64 (AllocationCount w + 1) else AllocationCount w)\<rparr>)))"

subsection \<open>\<open>general_allocate\<close>, \<open>general_reallocate\<close>, \<open>general_free\<close>, \<open>free_all\<close>\<close>

text \<open>
  The results are \<open>None\<close> for a run that does not end (the walk of \<open>verify_heap\<close>),
  \<open>Some (Inl e)\<close> for a failed assertion or a trap, and \<open>Some (Inr r)\<close> for a return.
  The logging under \<open>Context.LogAllAllocations\<close> goes to a sink outside this model and
  is left out.  An allocator is the pair of its function and its context pointer.
\<close>

definition total_size :: "bool \<Rightarrow> int \<Rightarrow> int \<Rightarrow> int" where
  "total_size dbg userSize alignment =
     (let required = s64 (u64 (u64 (u64 (u64 userSize + u64 alignment) + sizeof_allocation_header dbg)
                            + (sizeof_allocation_header dbg mod alignment)))
      in if dbg then s64 (required + NO_MANS_LAND_SIZE) else required)"

definition general_allocate ::
  "bool \<Rightarrow> (int \<Rightarrow> 's allocator_func) \<Rightarrow> implicit_context \<Rightarrow> int \<times> int \<Rightarrow> int \<Rightarrow> int \<Rightarrow> 64 word \<Rightarrow>
     int \<Rightarrow> int \<Rightarrow> 's world \<Rightarrow> (fault + (int \<times> 's world)) option" where
  "general_allocate dbg ft cx alloc userSize alignment0 options0 fileName fileLine w =
     (let (f, c) = alloc;
          options = options0 OR AllocOptions cx
      in if alignment0 = 0 \<and> \<not> is_pow_of_2 (AllocAlignment cx) then Some (Inl Not_a_power_of_2)
         else
           (let alignment1 = (if alignment0 = 0 then AllocAlignment cx else alignment0);
                alignment = (if alignment1 < POINTER_SIZE then POINTER_SIZE else alignment1)
            in if \<not> is_pow_of_2 alignment then Some (Inl Not_a_power_of_2)
               else
                 (let required = total_size dbg userSize alignment;
                      (block, options1, w1) = call_allocator ft f ALLOCATE c required 0 0 options w
                  in case encode_header dbg block userSize alignment f c options1 w1 of
                       Inl e \<Rightarrow> Some (Inl e)
                     | Inr (result, w2) \<Rightarrow>
                         (let w3 = (if dbg
                                    then (let header = result - sizeof_allocation_header dbg
                                          in DEBUG_add_header header
                                               (w2\<lparr>Mem := store64 (header + off_FileLine) fileLine
                                                              (store64 (header + off_FileName) fileName
                                                                 (Mem w2))\<rparr>))
                                    else w2)
                          in case verify_heap dbg w3 of
                               None \<Rightarrow> None
                             | Some (Some e) \<Rightarrow> Some (Inl e)
                             | Some None \<Rightarrow> Some (Inr (result, w3))))))"

definition general_free ::
  "bool \<Rightarrow> (int \<Rightarrow> 's allocator_func) \<Rightarrow> implicit_context \<Rightarrow> int \<Rightarrow> 64 word \<Rightarrow> 's world \<Rightarrow>
     (fault + 's world) option" where
  "general_free dbg ft cx ptr options0 w =
     (if ptr = 0 then Some (Inr w)
      else
        (let options = options0 OR AllocOptions cx;
             header = ptr - sizeof_allocation_header dbg
         in case verify_header dbg w header of
              Some e \<Rightarrow> Some (Inl e)
            | None \<Rightarrow>
                (let m = Mem w;
                     alignment = load16 m (header + off_Alignment dbg)
                 in if alignment = 0 then Some (Inl Division_by_zero)
                    else
                      (let extra = s64 (u64 (u64 (alignment + sizeof_allocation_header dbg)
                                     + (sizeof_allocation_header dbg mod alignment)));
                           size0 = s64 (s64 (load64 m (header + off_Size dbg)) + extra);
                           sz = (if dbg then s64 (size0 + NO_MANS_LAND_SIZE) else size0);
                           func = load64 m (header + off_Function dbg);
                           c = load64 m (header + off_Context dbg);
                           block = header - load16 m (header + off_AlignmentPadding dbg)
                       in case (if dbg
                                then (case DEBUG_unlink_header header w of
                                        Inl e \<Rightarrow> Inl e
                                      | Inr w1 \<Rightarrow> Inr (w1\<lparr>Mem := fill_memory block DEAD_LAND_FILL sz (Mem w1)\<rparr>))
                                else Inr w) of
                            Inl e \<Rightarrow> Some (Inl e)
                          | Inr w2 \<Rightarrow>
                              (let (r, options1, w3) = call_allocator ft func FREE c 0 block sz options w2
                               in case verify_heap dbg w3 of
                                    None \<Rightarrow> None
                                  | Some (Some e) \<Rightarrow> Some (Inl e)
                                  | Some None \<Rightarrow> Some (Inr w3))))))"

definition general_reallocate ::
  "bool \<Rightarrow> (int \<Rightarrow> 's allocator_func) \<Rightarrow> implicit_context \<Rightarrow> int \<Rightarrow> int \<Rightarrow> 64 word \<Rightarrow>
     int \<Rightarrow> int \<Rightarrow> 's world \<Rightarrow> (fault + (int \<times> 's world)) option" where
  "general_reallocate dbg ft cx ptr newUserSize options0 fileName fileLine w =
     (let options = options0 OR AllocOptions cx;
          header = ptr - sizeof_allocation_header dbg;
          hs = sizeof_allocation_header dbg
      in case verify_header dbg w header of
           Some e \<Rightarrow> Some (Inl e)
         | None \<Rightarrow>
             if s64 (load64 (Mem w) (header + off_Size dbg)) = newUserSize then Some (Inr (ptr, w))
             else
               (let m = Mem w;
                    ident = load64 m (header + off_ID);
                    alignment = load16 m (header + off_Alignment dbg)
                in if alignment = 0 then Some (Inl Division_by_zero)
                   else
                     (let extra = s64 (u64 (u64 (hs + alignment) + (hs mod alignment)));
                          oldUserSize = s64 (load64 m (header + off_Size dbg));
                          oldSize0 = s64 (oldUserSize + extra);
                          newSize0 = s64 (newUserSize + extra);
                          oldSize = (if dbg then s64 (oldSize0 + NO_MANS_LAND_SIZE) else oldSize0);
                          newSize = (if dbg then s64 (newSize0 + NO_MANS_LAND_SIZE) else newSize0);
                          func = load64 m (header + off_Function dbg);
                          c = load64 m (header + off_Context dbg);
                          block = header - load16 m (header + off_AlignmentPadding dbg);
                          (newBlock, options1, w1) =
                             call_allocator ft func RESIZE c newSize block oldSize options w
                      in case
                           (if newBlock = 0
                            then
                              (let (newBlock2, options2, w2) =
                                     call_allocator ft func ALLOCATE c newSize 0 0 options1 w1
                               in case encode_header dbg newBlock2 newUserSize
                                         (load16 (Mem w2) (header + off_Alignment dbg)) func c options2 w2 of
                                    Inl e \<Rightarrow> Inl e
                                  | Inr (newPointer, w3) \<Rightarrow>
                                      (let newHeader = newPointer - hs;
                                           m3 = store64 (newHeader + off_Owner dbg)
                                                  (load64 (Mem w3) (header + off_Owner dbg)) (Mem w3);
                                           m4 = copy_memory newPointer ptr
                                                  (s64 (load64 m3 (header + off_Size dbg))) m3;
                                           w4 = w3\<lparr>Mem := m4\<rparr>
                                       in case
                                            (if dbg
                                             then
                                               (let m4a = store64 (newHeader + off_ID) ident m4;
                                                    m5 = store64 (newHeader + off_RID)
                                                           (s64 (s64 (load64 m4a (header + off_RID)) + 1)) m4a
                                                in case DEBUG_swap_header header newHeader (w4\<lparr>Mem := m5\<rparr>) of
                                                     Inl e \<Rightarrow> Inl e
                                                   | Inr w5 \<Rightarrow>
                                                       (let m6 = fill_memory block DEAD_LAND_FILL oldSize (Mem w5);
                                                            m7 = store64 (newHeader + off_FileLine) fileLine
                                                                   (store64 (newHeader + off_FileName) fileName m6);
                                                            m8 = store8 (newHeader + off_MarkedAsLeak)
                                                                   (load8 m7 (header + off_MarkedAsLeak)) m7
                                                        in Inr (w5\<lparr>Mem := m8\<rparr>)))
                                             else Inr w4) of
                                            Inl e \<Rightarrow> Inl e
                                          | Inr w6 \<Rightarrow>
                                              (let (r, options3, w7) =
                                                     call_allocator ft func FREE c 0 block oldSize options2 w6
                                               in Inr (newHeader + hs, options3, w7))))
                            else if block \<noteq> newBlock then Inl Block_moved_on_resize
                            else
                              (let m1 = Mem w1;
                                   m2 = (if dbg
                                         then store64 (header + off_FileLine) fileLine
                                                (store64 (header + off_FileName) fileName
                                                  (store64 (header + off_RID)
                                                     (s64 (s64 (load64 m1 (header + off_RID)) + 1)) m1))
                                         else m1);
                                   m3 = store64 (header + off_Size dbg) newUserSize m2
                               in Inr (header + hs, options1, w1\<lparr>Mem := m3\<rparr>))) of
                           Inl e \<Rightarrow> Some (Inl e)
                         | Inr (p, options4, w8) \<Rightarrow>
                             (let m8 = Mem w8;
                                  m9 = (if oldSize < newSize
                                        then (if options4 AND DO_INIT_0 \<noteq> 0
                                              then fill_memory (p + oldUserSize) 0 (newSize - oldSize) m8
                                              else if dbg
                                              then fill_memory (p + oldUserSize) CLEAN_LAND_FILL
                                                     (newSize - oldSize) m8
                                              else m8)
                                        else if dbg
                                        then fill_memory (header + oldSize) DEAD_LAND_FILL
                                               (oldSize - newSize) m8
                                        else m8);
                                  m10 = (if dbg
                                         then fill_memory (p + newUserSize) NO_MANS_LAND_FILL
                                                NO_MANS_LAND_SIZE m9
                                         else m9);
                                  w9 = w8\<lparr>Mem := m10\<rparr>
                              in case verify_heap dbg w9 of
                                   None \<Rightarrow> None
                                 | Some (Some e) \<Rightarrow> Some (Inl e)
                                 | Some None \<Rightarrow> Some (Inr (p, w9))))))"

definition free_all ::
  "(int \<Rightarrow> 's allocator_func) \<Rightarrow> implicit_context \<Rightarrow> int \<times> int \<Rightarrow> 64 word \<Rightarrow> 's world \<Rightarrow> fault + 's world" where
  "free_all ft cx alloc options0 w =
     (let (f, c) = alloc;
          (r, options1, w1) = call_allocator ft f FREE_ALL c 0 0 0 (options0 OR AllocOptions cx) w
      in if u64 r = u64 (- 1) then Inl FREE_ALL_not_supported else Inr w1)"


declare verify_walk.simps [code]

text \<open>
  Modelled from the spec: a bump allocator (spec 4.6, within one page): \<open>ALLOCATE\<close>
  returns the cursor and advances it by the size, \<open>RESIZE\<close> always answers
  "must-move", \<open>FREE\<close> does nothing.  And a heap (spec 4.4) whose \<open>RESIZE\<close> succeeds in
  place when the size does not grow.  Both hand out consecutive blocks and write
  nothing to memory.
\<close>

definition bump_allocator :: "int allocator_func" where
  "bump_allocator mode c sz oldMemory oldSize options m cursor =
     (case mode of
        ALLOCATE \<Rightarrow> (cursor, options, m, cursor + sz)
      | RESIZE \<Rightarrow> (0, options, m, cursor)
      | FREE \<Rightarrow> (0, options, m, cursor)
      | FREE_ALL \<Rightarrow> (0, options, m, cursor))"

definition heap_allocator :: "int allocator_func" where
  "heap_allocator mode c sz oldMemory oldSize options m cursor =
     (case mode of
        ALLOCATE \<Rightarrow> (cursor, options, m, cursor + sz)
      | RESIZE \<Rightarrow> (if sz \<le> oldSize then oldMemory else 0, options, m, cursor)
      | FREE \<Rightarrow> (0, options, m, cursor)
      | FREE_ALL \<Rightarrow> (- 1, options, m, cursor))"

definition function_table :: "int \<Rightarrow> int allocator_func" where
  "function_table f = (if f = 1 then bump_allocator else heap_allocator)"

definition default_context :: implicit_context where
  "default_context = \<lparr>AllocOptions = 0, AllocAlignment = 8\<rparr>"

definition empty_world :: "int \<Rightarrow> int world" where
  "empty_world cursor =
     \<lparr>Mem = (\<lambda>x. 0), DEBUG_Head = 0, AllocationCount = 0, Backing = cursor, Calls = []\<rparr>"

text \<open>What the client of an allocation does with it: writing \<open>n\<close> bytes \<open>v\<close> at \<open>p\<close>.\<close>

definition client_fill :: "int \<Rightarrow> int \<Rightarrow> int \<Rightarrow> 's world \<Rightarrow> 's world" where
  "client_fill p v n w = w\<lparr>Mem := fill_memory p v n (Mem w)\<rparr>"

text \<open>
  \<open>decode(p)\<close>, the fields of the header right before a user pointer, and the raw block
  that \<open>general_free\<close> and \<open>general_reallocate\<close> recover from them.
\<close>

definition header_Size :: "bool \<Rightarrow> bytes \<Rightarrow> int \<Rightarrow> int" where
  "header_Size dbg m p = s64 (load64 m (p - sizeof_allocation_header dbg + off_Size dbg))"

definition header_Alignment :: "bool \<Rightarrow> bytes \<Rightarrow> int \<Rightarrow> int" where
  "header_Alignment dbg m p = load16 m (p - sizeof_allocation_header dbg + off_Alignment dbg)"

definition header_AlignmentPadding :: "bool \<Rightarrow> bytes \<Rightarrow> int \<Rightarrow> int" where
  "header_AlignmentPadding dbg m p =
     load16 m (p - sizeof_allocation_header dbg + off_AlignmentPadding dbg)"

definition header_Function :: "bool \<Rightarrow> bytes \<Rightarrow> int \<Rightarrow> int" where
  "header_Function dbg m p = load64 m (p - sizeof_allocation_header dbg + off_Function dbg)"

definition header_Context :: "bool \<Rightarrow> bytes \<Rightarrow> int \<Rightarrow> int" where
  "header_Context dbg m p = load64 m (p - sizeof_allocation_header dbg + off_Context dbg)"

definition raw_block :: "bool \<Rightarrow> bytes \<Rightarrow> int \<Rightarrow> int" where
  "raw_block dbg m p = p - sizeof_allocation_header dbg - header_AlignmentPadding dbg m p"

text \<open>The headers the walk of the tracker list visits, at most \<open>n\<close> of them.\<close>

fun tracked :: "nat \<Rightarrow> bytes \<Rightarrow> int \<Rightarrow> int list" where
  "tracked 0 m h = []"
| "tracked (Suc n) m h = (if h = 0 then [] else h # tracked n m (load64 m (h + off_DEBUG_Next)))"

text \<open>What a call returned: the pointer, or the failed assertion.\<close>

definition outcome :: "(fault + (int \<times> 's world)) option \<Rightarrow> (fault + int) option" where
  "outcome r = map_option (map_sum id fst) r"

text \<open>
  The memory \<open>general_allocate\<close> leaves when the header goes to \<open>h\<close> in the raw block
  at \<open>block\<close>: what \<open>encode_header\<close> writes and, in a debug build, the source position
  and the two links that \<open>DEBUG_add_header\<close> sets (\<open>head\<close> is the list head before).
\<close>

definition allocated_memory ::
  "bool \<Rightarrow> int \<Rightarrow> int \<Rightarrow> int \<Rightarrow> int \<Rightarrow> int \<Rightarrow> int \<Rightarrow> int \<Rightarrow> 64 word \<Rightarrow> int \<Rightarrow> int \<Rightarrow> int \<Rightarrow>
     bytes \<Rightarrow> bytes" where
  "allocated_memory dbg head h block userSize align f c flags count fileName fileLine m =
     (let E = encode_header_bytes dbg h userSize align (h - block) f c flags count m;
          M = store64 (h + off_DEBUG_Next) head
                (store64 (h + off_FileLine) fileLine (store64 (h + off_FileName) fileName E))
      in if dbg
         then (if head \<noteq> 0 then store64 (head + off_DEBUG_Previous) h M else M)
         else E)"

text \<open>
  The fields of \<open>decode(p)\<close> that \<open>general_free\<close> and \<open>general_reallocate\<close> work from:
  function, context, size, alignment and alignment padding.
\<close>

definition decode :: "bool \<Rightarrow> bytes \<Rightarrow> int \<Rightarrow> int \<times> int \<times> int \<times> int \<times> int" where
  "decode dbg m p =
     (header_Function dbg m p, header_Context dbg m p, header_Size dbg m p,
      header_Alignment dbg m p, header_AlignmentPadding dbg m p)"

text \<open>
  The alignment \<open>general_allocate\<close> works with: the default of the context for the
  argument 0, and the pointer size for anything below it.
\<close>

definition clamped_alignment :: "implicit_context \<Rightarrow> int \<Rightarrow> int" where
  "clamped_alignment cx alignment0 =
     (let a = (if alignment0 = 0 then AllocAlignment cx else alignment0)
      in if a < POINTER_SIZE then POINTER_SIZE else a)"





text \<open>
  Two runs of a debug build on the bump allocator (function 1 of the table), from an
  empty tracker list and a cursor at \<open>0x1000\<close>.  In the first a block of 200 bytes is
  allocated, its client fills it with the byte \<open>0x11\<close>, and it is reallocated to 50
  bytes.  In the second a block of 64 bytes is allocated (the user pointer is 4200 and
  the tracker list holds the one header, at 4096) and reallocated to 8 bytes.
\<close>

definition shrink_by_move :: "(fault + (int \<times> int world)) option" where
  "shrink_by_move =
     (case general_allocate True function_table default_context (1, 0) 200 8 0 0 0
             (empty_world 0x1000) of
        Some (Inr (p, w)) \<Rightarrow>
          general_reallocate True function_table default_context p 50 0 0 0
            (client_fill p 0x11 200 w)
      | _ \<Rightarrow> None)"

definition tracker_after_shrink :: "(fault + (int \<times> int world)) option" where
  "tracker_after_shrink =
     (case general_allocate True function_table default_context (1, 0) 64 8 0 0 0
             (empty_world 0x1000) of
        Some (Inr (p, w)) \<Rightarrow>
          (if p = 4200 \<and> tracked 2 (Mem w) (DEBUG_Head w) = [4096]
           then general_reallocate True function_table default_context p 8 0 0 0 w
           else None)
      | _ \<Rightarrow> None)"


text \<open>
  Two runs of a release build on the bump allocator from a cursor at \<open>0x1000\<close>: an
  allocation of 16 bytes with alignment \<open>2^16\<close> (it returns 65536 and stores the size 16)
  that is then freed; and, in either build, an allocation of 16 bytes with alignment 8
  that is freed twice.
\<close>

definition wide_alignment_freed :: "(fault + int world) option" where
  "wide_alignment_freed =
     (case general_allocate False function_table default_context (1, 0) 16 65536 0 0 0
             (empty_world 0x1000) of
        Some (Inr (p, w)) \<Rightarrow>
          (if p = 65536 \<and> header_Size False (Mem w) p = 16
           then general_free False function_table default_context p 0 w else None)
      | _ \<Rightarrow> None)"



section \<open>Properties of the pool allocator\<close>

subsection \<open>The doubling loop\<close>

lemma double_until_ge:
  assumes "double_until bs sz = Some r"
  shows "sz \<le> r"
  using assms
  by (rule double_until.raw_induct[rotated 1, where P="\<lambda>bs sz r. sz \<le> r"])
     (auto split: if_splits)

lemma double_until_total:
  assumes "bs \<noteq> 0" "unat sz \<le> 2 ^ 63"
  shows "\<exists>r. double_until bs sz = Some r"
  using assms
proof (induction "2 ^ 64 - unat bs" arbitrary: bs rule: less_induct)
  case less
  show ?case
  proof (cases "bs < sz")
    case False
    then show ?thesis by (subst double_until.simps) simp
  next
    case True
    then have lt: "unat bs < 2 ^ 63"
      using less.prems(2) by (simp add: word_less_nat_alt)
    have pos: "0 < unat bs"
      using less.prems(1) by (simp add: unat_gt_0)
    have u2: "unat (bs * 2) = 2 * unat bs"
      using lt by (simp add: unat_word_ariths)
    have ne: "bs * 2 \<noteq> 0"
    proof
      assume "bs * 2 = 0"
      then have "unat (bs * 2) = 0" by simp
      then show False using u2 pos by simp
    qed
    have "2 ^ 64 - unat (bs * 2) < 2 ^ 64 - unat bs"
      using u2 lt pos by simp
    from less.hyps[OF this ne less.prems(2)]
    obtain r where "double_until (bs * 2) sz = Some r" by blast
    then show ?thesis using True by (subst double_until.simps) simp
  qed
qed

subsection \<open>The scenario of a fresh pool: 10 bytes, then 20 bytes\<close>

lemma get_first: "get (fresh_pool 16 8 [0x1000, 0x2000]) 10 = Some (0x1000, pool_after_first)"
  by (simp add: get_def fresh_pool_def ensure_memory_exists_def double_until.simps
      cycle_new_block_def New_u8_def Let_def resize_blocks_def pool_after_first_def)

lemma get_second: "get pool_after_first 20 = Some (0x2000, pool_after_second)"
  by (simp add: get_def ensure_memory_exists_def double_until.simps
      cycle_new_block_def New_u8_def Let_def resize_blocks_def pool_after_first_def
      pool_after_second_def insert_commute)

text \<open>
  C5, as stated, fails.  The first call needs \<open>10 + 6 = 16\<close> bytes, which is not more than
  the nominal block size 16: the nominal size stays 16 (it does not grow), one raw block of
  16 bytes is reserved and the call uses all of it.  The second call needs \<open>20 + 4 = 24\<close>
  bytes with 0 bytes left: it is not served from the same block, the first block is demoted
  to Obsolete, and a second raw block (of 32 bytes) becomes the current one.
\<close>

theorem first_get_grows_second_shares_counterexample:
  "get (fresh_pool 16 8 [0x1000, 0x2000]) 10 = Some (0x1000, pool_after_first) \<and>
   BlockSize pool_after_first = 16 \<and>
   BytesLeft pool_after_first = 0 \<and>
   get pool_after_first 20 = Some (0x2000, pool_after_second) \<and>
   CurrentMemblock pool_after_second \<noteq> CurrentMemblock pool_after_first \<and>
   ObsoletedMemblocks pool_after_second = [CurrentMemblock pool_after_first] \<and>
   Requests (BlockAllocator pool_after_second) = [16, 32]"
  using get_first get_second by (simp add: pool_after_first_def pool_after_second_def)

text \<open>
  C5, amended: from a fresh pool with nominal block size 16 and alignment 8, whatever
  non-null block \<open>b1\<close> and block \<open>b2\<close> the raw source hands out, \<open>get\<close> for 10 bytes
  returns \<open>b1\<close>, leaves the nominal block size at 16, obsoletes nothing and leaves 0 bytes;
  \<open>get\<close> for 20 bytes then doubles the nominal block size to 32, moves \<open>b1\<close> to the
  Obsolete list and returns the start of the new current block \<open>b2\<close>, of which 8 bytes
  remain.
\<close>

theorem second_get_obsoletes_first_block:
  assumes "b1 \<noteq> 0"
  shows "\<exists>pool1 pool2.
     get (fresh_pool 16 8 (b1 # b2 # rest)) 10 = Some (b1, pool1) \<and>
     BlockSize pool1 = 16 \<and> ObsoletedMemblocks pool1 = [] \<and> UsedMemblocks pool1 = [] \<and>
     CurrentMemblock pool1 = b1 \<and> CurrentPosition pool1 = b1 + 16 \<and> BytesLeft pool1 = 0 \<and>
     Requests (BlockAllocator pool1) = [16] \<and>
     get pool1 20 = Some (b2, pool2) \<and>
     BlockSize pool2 = 32 \<and> ObsoletedMemblocks pool2 = [b1] \<and> UsedMemblocks pool2 = [] \<and>
     CurrentMemblock pool2 = b2 \<and> CurrentPosition pool2 = b2 + 24 \<and> BytesLeft pool2 = 8 \<and>
     Requests (BlockAllocator pool2) = [16, 32]"
  using assms
  by (simp add: get_def fresh_pool_def ensure_memory_exists_def double_until.simps
      cycle_new_block_def New_u8_def Let_def resize_blocks_def)

theorem second_get_obsoletes_first_block_witness:
  "(0x1000 :: u8_ptr) \<noteq> 0 \<and> (\<exists>pool1 pool2.
     get (fresh_pool 16 8 [0x1000, 0x2000]) 10 = Some (0x1000, pool1) \<and>
     BlockSize pool1 = 16 \<and>
     get pool1 20 = Some (0x2000, pool2) \<and>
     BlockSize pool2 = 32 \<and> ObsoletedMemblocks pool2 = [0x1000] \<and> CurrentMemblock pool2 = 0x2000)"
  using second_get_obsoletes_first_block[of "0x1000" "0x2000" "[]"] by auto

subsection \<open>What one call of \<open>get\<close> consumes\<close>

lemma extra_bounds:
  fixes A s :: size_t
  assumes "A \<noteq> 0"
  shows "unat (A - s mod A) = unat A - unat s mod unat A"
    and "1 \<le> unat (A - s mod A)"
    and "unat (A - s mod A) \<le> unat A"
proof -
  have pos: "0 < unat A"
    using assms by (simp add: unat_gt_0)
  have lt: "unat s mod unat A < unat A"
    using pos by simp
  have le: "s mod A \<le> A"
    using lt by (simp add: word_le_nat_alt unat_mod_distrib)
  show e: "unat (A - s mod A) = unat A - unat s mod unat A"
    using le by (simp add: unat_sub unat_mod_distrib)
  show "1 \<le> unat (A - s mod A)"
    using e lt by simp
  show "unat (A - s mod A) \<le> unat A"
    using e by simp
qed

lemma consumed_multiple:
  fixes A s :: size_t
  assumes "A \<noteq> 0" "unat s + unat A < 2 ^ 64"
  shows "unat (s + (A - s mod A)) = unat s + unat (A - s mod A)"
    and "unat A dvd unat (s + (A - s mod A))"
    and "0 < unat (s + (A - s mod A))"
proof -
  note eb = extra_bounds[OF assms(1), of s]
  show u: "unat (s + (A - s mod A)) = unat s + unat (A - s mod A)"
    using eb(3) assms(2) by (simp add: unat_word_ariths)
  have pos: "0 < unat A"
    using assms by (simp add: unat_gt_0)
  have "unat s + (unat A - unat s mod unat A) = (unat s div unat A + 1) * unat A"
  proof -
    have lt: "unat s mod unat A < unat A"
      using pos by simp
    have "unat s + (unat A - unat s mod unat A) = (unat s - unat s mod unat A) + unat A"
      using lt mod_less_eq_dividend[of "unat s" "unat A"] by simp
    also have "unat s - unat s mod unat A = unat s div unat A * unat A"
      by (simp add: minus_mod_eq_div_mult)
    finally show ?thesis by simp
  qed
  then show "unat A dvd unat (s + (A - s mod A))"
    using u eb(1) by simp
  show "0 < unat (s + (A - s mod A))"
    using u eb(2) by simp
qed

lemma ensure_Some:
  assumes "ensure_memory_exists pool sz = Some p1"
  shows "CurrentPosition p1 = CurrentMemblock p1"
    and "BytesLeft p1 = BlockSize p1"
    and "sz \<le> BlockSize p1"
    and "Alignment p1 = Alignment pool"
proof -
  from assms obtain r where r: "double_until (BlockSize pool) sz = Some r"
    and p1: "p1 = cycle_new_block (if r > BlockSize pool then resize_blocks pool r else pool)"
    by (auto simp: ensure_memory_exists_def split: option.splits)
  have ge: "sz \<le> r"
    using double_until_ge[OF r] .
  show "CurrentPosition p1 = CurrentMemblock p1" "BytesLeft p1 = BlockSize p1"
    "Alignment p1 = Alignment pool"
    by (auto simp: p1 cycle_new_block_def resize_blocks_def Let_def split: prod.splits)
  show "sz \<le> BlockSize p1"
    using ge by (auto simp: p1 cycle_new_block_def resize_blocks_def Let_def split: prod.splits)
qed

lemma get_total:
  assumes "Alignment pool \<noteq> 0" "BlockSize pool \<noteq> 0"
    and "unat s + unat (Alignment pool) \<le> 2 ^ 63"
  shows "get pool s \<noteq> None"
proof -
  note eb = extra_bounds[OF assms(1), of s]
  have nw: "unat s + unat (Alignment pool) < 2 ^ 64"
    using assms(3) by simp
  note cm = consumed_multiple[OF assms(1) nw]
  have "unat (s + (Alignment pool - s mod Alignment pool)) \<le> 2 ^ 63"
    using cm(1) eb(3) assms(3) by simp
  from double_until_total[OF assms(2) this]
  show ?thesis
    using assms(1)
    by (auto simp: get_def Let_def ensure_memory_exists_def split: option.splits)
qed

lemma get_consumes_aux:
  assumes A0: "Alignment pool \<noteq> 0"
    and nowrap: "unat s + unat (Alignment pool) < 2 ^ 64"
    and inv: "bump_ok pool"
    and ret: "get pool s = Some (p, pool')"
  shows "CurrentPosition pool' = p + (s + get_extra pool s)"
    and "unat (BytesLeft pool') + unat (s + get_extra pool s) =
         unat (if BytesLeft pool < s + get_extra pool s then BlockSize pool' else BytesLeft pool)"
    and "unat (Alignment pool) dvd unat (p - CurrentMemblock pool')"
    and "bump_ok pool'"
proof -
  let ?A = "Alignment pool"
  let ?e = "get_extra pool s"
  let ?sz = "s + ?e"
  note cm = consumed_multiple[OF A0 nowrap, folded get_extra_def]
  have "\<exists>p1. (if BytesLeft pool < ?sz then ensure_memory_exists pool ?sz else Some pool) = Some p1
      \<and> p = CurrentPosition p1
      \<and> pool' = p1\<lparr>CurrentPosition := CurrentPosition p1 + ?sz, BytesLeft := BytesLeft p1 - ?sz\<rparr>"
    using ret A0 unfolding get_def Let_def get_extra_def
    by (cases "if BytesLeft pool < s + (Alignment pool - s mod Alignment pool)
               then ensure_memory_exists pool (s + (Alignment pool - s mod Alignment pool))
               else Some pool") auto
  then obtain p1
    where p1: "(if BytesLeft pool < ?sz then ensure_memory_exists pool ?sz else Some pool) = Some p1"
      and p: "p = CurrentPosition p1"
      and pool': "pool' = p1\<lparr>CurrentPosition := CurrentPosition p1 + ?sz, BytesLeft := BytesLeft p1 - ?sz\<rparr>"
    by blast
  have mid: "bump_ok p1 \<and> ?sz \<le> BytesLeft p1 \<and> Alignment p1 = ?A \<and>
             BytesLeft p1 = (if BytesLeft pool < ?sz then BlockSize p1 else BytesLeft pool)"
  proof (cases "BytesLeft pool < ?sz")
    case True
    then have "ensure_memory_exists pool ?sz = Some p1"
      using p1 by simp
    from ensure_Some[OF this] True show ?thesis
      by (simp add: bump_ok_def)
  next
    case False
    then show ?thesis
      using p1 inv by auto
  qed
  from mid have szle: "?sz \<le> BytesLeft p1"
    by blast
  have sle: "unat ?sz \<le> unat (BytesLeft p1)"
    using szle by (simp add: word_le_nat_alt)
  let ?off = "CurrentPosition p1 - CurrentMemblock p1"
  have offb: "unat ?off + unat (BytesLeft p1) \<le> unat (BlockSize p1)"
    and offd: "unat ?A dvd unat ?off"
    using mid by (auto simp: bump_ok_def)
  have bs: "unat (BlockSize p1) < 2 ^ 64"
    using unsigned_less[of "BlockSize p1", where ?'a = nat] by simp
  have off': "unat (CurrentPosition p1 + ?sz - CurrentMemblock p1) = unat ?off + unat ?sz"
  proof -
    have "CurrentPosition p1 + ?sz - CurrentMemblock p1 = ?off + ?sz"
      by simp
    moreover have "unat (?off + ?sz) = unat ?off + unat ?sz"
      using offb sle bs by (simp add: unat_word_ariths)
    ultimately show ?thesis by (simp only:)
  qed
  have bl': "unat (BytesLeft p1 - ?sz) = unat (BytesLeft p1) - unat ?sz"
    using szle by (simp add: unat_sub)
  show "bump_ok pool'"
    unfolding bump_ok_def pool' using off' bl' offb sle offd cm(2) mid by (simp add: dvd_add)
  show "CurrentPosition pool' = p + ?sz"
    by (simp add: pool' p)
  show "unat ?A dvd unat (p - CurrentMemblock pool')"
    using offd by (simp add: p pool')
  have "BlockSize pool' = BlockSize p1"
    by (simp add: pool')
  then show "unat (BytesLeft pool') + unat ?sz =
      unat (if BytesLeft pool < ?sz then BlockSize pool' else BytesLeft pool)"
    using bl' sle mid by (simp add: pool')
qed

text \<open>
  C8, as stated, fails at the top of the \<open>size_t\<close> range: with alignment 8 a request of
  \<open>s = 2^64 - 8\<close> bytes gets \<open>extra = 8\<close>, and \<open>s + extra\<close> wraps to 0.  On a fresh pool
  \<open>get\<close> then consumes nothing, cycles no block, and returns the null cursor.
\<close>

theorem get_consumes_positive_multiple_counterexample:
  "get (fresh_pool 16 8 [0x1000]) (- 8) = Some (0, fresh_pool 16 8 [0x1000]) \<and>
   get_extra (fresh_pool 16 8 [0x1000]) (- 8) = 8 \<and>
   (- 8 :: size_t) + get_extra (fresh_pool 16 8 [0x1000]) (- 8) = 0"
  by (simp add: get_def fresh_pool_def get_extra_def)

text \<open>
  C8, amended: for every pool with a non-zero alignment and every request size \<open>s\<close> with
  \<open>s + Alignment < 2^64\<close> (no wrap-around of \<open>size_t\<close>), \<open>extra = Alignment - s mod
  Alignment\<close> lies between 1 and \<open>Alignment\<close>, and is a full \<open>Alignment\<close> when \<open>s\<close> is a
  multiple of it (\<open>s = 0\<close> included); the consumed amount \<open>s + extra\<close> is a positive
  multiple of \<open>Alignment\<close>.  When the cursor is in step with the byte counter (\<open>bump_ok\<close>)
  and \<open>get\<close> returns \<open>p\<close>, the cursor ends at \<open>p + s + extra\<close>, the byte counter drops by
  \<open>s + extra\<close> from what the serving block had left, \<open>p\<close> lies at a multiple of
  \<open>Alignment\<close> from the start of the current block, and the pool is again in step.  The
  call does return when, in addition, the nominal block size is not 0 and
  \<open>s + Alignment \<le> 2^63\<close>.
\<close>

theorem get_consumes_positive_multiple:
  assumes "Alignment pool \<noteq> 0"
    and "unat s + unat (Alignment pool) < 2 ^ 64"
    and "bump_ok pool"
  shows "1 \<le> unat (get_extra pool s) \<and> unat (get_extra pool s) \<le> unat (Alignment pool) \<and>
         (s mod Alignment pool = 0 \<longrightarrow> get_extra pool s = Alignment pool) \<and>
         unat (s + get_extra pool s) = unat s + unat (get_extra pool s) \<and>
         0 < unat (s + get_extra pool s) \<and>
         unat (Alignment pool) dvd unat (s + get_extra pool s) \<and>
         (BlockSize pool \<noteq> 0 \<and> unat s + unat (Alignment pool) \<le> 2 ^ 63 \<longrightarrow> get pool s \<noteq> None) \<and>
         (\<forall>p pool'. get pool s = Some (p, pool') \<longrightarrow>
            CurrentPosition pool' = p + (s + get_extra pool s) \<and>
            unat (BytesLeft pool') + unat (s + get_extra pool s) =
              unat (if BytesLeft pool < s + get_extra pool s then BlockSize pool' else BytesLeft pool) \<and>
            unat (Alignment pool) dvd unat (p - CurrentMemblock pool') \<and>
            bump_ok pool')"
proof -
  note eb = extra_bounds[OF assms(1), of s, folded get_extra_def]
  note cm = consumed_multiple[OF assms(1,2), folded get_extra_def]
  have full: "s mod Alignment pool = 0 \<longrightarrow> get_extra pool s = Alignment pool"
    by (simp add: get_extra_def)
  have tot: "BlockSize pool \<noteq> 0 \<and> unat s + unat (Alignment pool) \<le> 2 ^ 63 \<longrightarrow> get pool s \<noteq> None"
    using get_total[OF assms(1)] by blast
  have ret: "\<forall>p pool'. get pool s = Some (p, pool') \<longrightarrow>
            CurrentPosition pool' = p + (s + get_extra pool s) \<and>
            unat (BytesLeft pool') + unat (s + get_extra pool s) =
              unat (if BytesLeft pool < s + get_extra pool s then BlockSize pool' else BytesLeft pool) \<and>
            unat (Alignment pool) dvd unat (p - CurrentMemblock pool') \<and>
            bump_ok pool'"
    using get_consumes_aux[OF assms] by blast
  show ?thesis
    using eb(2,3) cm full tot ret by blast
qed

theorem get_consumes_positive_multiple_witness:
  "Alignment pool_after_first \<noteq> 0 \<and>
   unat (20 :: size_t) + unat (Alignment pool_after_first) < 2 ^ 64 \<and>
   bump_ok pool_after_first \<and>
   get_extra pool_after_first 20 = 4 \<and>
   get pool_after_first 20 = Some (0x2000, pool_after_second) \<and>
   CurrentPosition pool_after_second = 0x2000 + (20 + get_extra pool_after_first 20) \<and>
   unat (Alignment pool_after_first) dvd unat (0x2000 - CurrentMemblock pool_after_second) \<and>
   bump_ok pool_after_second"
proof -
  have h1: "Alignment pool_after_first \<noteq> 0"
    by (simp add: pool_after_first_def)
  have h2: "unat (20 :: size_t) + unat (Alignment pool_after_first) < 2 ^ 64"
    by (simp add: pool_after_first_def)
  have h3: "bump_ok pool_after_first"
    by (simp add: pool_after_first_def bump_ok_def)
  have e: "get_extra pool_after_first 20 = 4"
    by (simp add: pool_after_first_def get_extra_def)
  from get_consumes_positive_multiple[OF h1 h2 h3] get_second
  have "CurrentPosition pool_after_second = 0x2000 + (20 + get_extra pool_after_first 20) \<and>
        unat (Alignment pool_after_first) dvd unat (0x2000 - CurrentMemblock pool_after_second) \<and>
        bump_ok pool_after_second"
    by blast
  then show ?thesis
    using h1 h2 h3 e get_second by blast
qed

subsection \<open>\<open>release\<close> keeps the current block\<close>






lemma get_two_blocks:
  "get (fresh_pool 16 8 [0x1000, 0x2000]) 10 = Some (0x1000, pool_after_first) \<and>
   get pool_after_first 10 = Some (0x2000, pool_two_blocks)"
  using get_first
  by (simp add: get_def ensure_memory_exists_def double_until.simps
      cycle_new_block_def New_u8_def Let_def resize_blocks_def pool_after_first_def
      pool_two_blocks_def insert_commute)



subsection \<open>The \<open>RESIZE\<close> mode of the pool allocator\<close>

lemma get_cursor:
  assumes "get pool sz = Some (r, p1)"
  shows "r = (if BytesLeft pool < sz + get_extra pool sz then CurrentMemblock p1
              else CurrentPosition pool)"
    and "CurrentPosition p1 = r + (sz + get_extra pool sz)"
  using assms
  by (auto simp: get_def Let_def get_extra_def ensure_memory_exists_def cycle_new_block_def
      split: option.splits if_splits prod.splits)

text \<open>
  C3, as stated, fails for the pool allocator of the sources: \<open>RESIZE\<close> on the 16-byte
  block at 0x1000 (the pool after \<open>get(pool, 10)\<close>) for 32 bytes returns 0x2000, which is
  neither the old pointer nor the null "must-move" sentinel.
\<close>

theorem pool_RESIZE_old_or_must_move_counterexample:
  "map_option fst (pool_allocator RESIZE pool_after_first 32 0x1000 16 blank_memory) = Some 0x2000 \<and>
   (0x2000 :: u8_ptr) \<noteq> 0x1000 \<and> (0x2000 :: u8_ptr) \<noteq> 0"
  by (simp add: pool_allocator_def get_def ensure_memory_exists_def double_until.simps
      cycle_new_block_def New_u8_def Let_def resize_blocks_def pool_after_first_def)

text \<open>
  C3, amended: the pool allocator does not implement the protocol of \<open>RESIZE\<close>.
  Whenever \<open>RESIZE\<close> returns, it has served the request exactly as \<open>ALLOCATE\<close> with the
  same size would (same address, same pool afterwards), whatever old block and old size
  are passed: the address is the bump cursor, that is the start of a newly cycled
  current block when the old one had too few bytes left and the old cursor otherwise,
  and the cursor moves past the padded size.  So the address is the old pointer or null
  only when the cursor happens to be there.
\<close>

theorem pool_RESIZE_allocates_anew:
  assumes "pool_allocator RESIZE pool sz oldMemory oldSize m = Some (r, p1, m1)"
  shows "pool_allocator ALLOCATE pool sz 0 0 m = Some (r, p1, m) \<and>
         r = (if BytesLeft pool < sz + get_extra pool sz then CurrentMemblock p1
              else CurrentPosition pool) \<and>
         CurrentPosition p1 = r + (sz + get_extra pool sz) \<and>
         (\<forall>old n. map_option (\<lambda>(a, p, b). (a, p)) (pool_allocator RESIZE pool sz old n m)
                    = Some (r, p1))"
proof -
  from assms have g: "get pool sz = Some (r, p1)"
    by (auto simp: pool_allocator_def split: option.splits)
  show ?thesis
    using g get_cursor[OF g] by (simp add: pool_allocator_def)
qed

theorem pool_RESIZE_allocates_anew_witness:
  "map_option (\<lambda>(a, p, b). (a, p)) (pool_allocator RESIZE pool_after_first 12 0x1000 16 blank_memory)
     = Some (0x2000, pool_two_blocks) \<and>
   pool_allocator ALLOCATE pool_after_first 12 0 0 blank_memory =
     Some (0x2000, pool_two_blocks, blank_memory) \<and>
   CurrentMemblock pool_two_blocks = 0x2000 \<and>
   map_option (\<lambda>(a, p, b). (a, p)) (pool_allocator RESIZE pool_after_first 12 0 0 blank_memory)
     = Some (0x2000, pool_two_blocks)"
proof -
  have g: "get pool_after_first 12 = Some (0x2000, pool_two_blocks)"
    by (simp add: get_def ensure_memory_exists_def double_until.simps
      cycle_new_block_def New_u8_def Let_def resize_blocks_def pool_after_first_def
      pool_two_blocks_def insert_commute)
  have r: "pool_allocator RESIZE pool_after_first 12 0x1000 16 blank_memory =
      Some (0x2000, pool_two_blocks, CopyMemory 0x1000 0x2000 16 blank_memory)"
    using g by (simp add: pool_allocator_def)
  note T = pool_RESIZE_allocates_anew[OF r]
  from T have 1: "pool_allocator ALLOCATE pool_after_first 12 0 0 blank_memory =
     Some (0x2000, pool_two_blocks, blank_memory)" by (elim conjE)
  from T have 2: "\<forall>old n. map_option (\<lambda>(a, p, b). (a, p))
                      (pool_allocator RESIZE pool_after_first 12 old n blank_memory)
                    = Some (0x2000, pool_two_blocks)" by (elim conjE)
  have 3: "CurrentMemblock pool_two_blocks = 0x2000" by (simp add: pool_two_blocks_def)
  show ?thesis
    by (intro conjI 2[rule_format] 1 3)
qed

section \<open>Properties of the temporary allocator\<close>

lemma pow2_from_between:
  assumes "2 ^ k < v" "v \<le> 2 ^ Suc k" "j \<le> Suc k"
  shows "pow2_from (2 ^ j) v = 2 ^ Suc k"
  using assms(3)
proof (induction "Suc k - j" arbitrary: j)
  case 0
  then have "j = Suc k" by simp
  then show ?case using assms(2) by (subst pow2_from.simps) simp
next
  case (Suc n)
  then have jk: "j \<le> k" by simp
  have "(2::nat) ^ j \<le> 2 ^ k" using jk by (intro power_increasing) simp_all
  then have lt: "(2::nat) ^ j < v" using assms(1) by linarith
  have "pow2_from (2 ^ j) v = pow2_from (2 ^ Suc j) v"
    using lt by (subst pow2_from.simps) simp
  also have "\<dots> = 2 ^ Suc k"
    using Suc.hyps(1)[of "Suc j"] Suc.hyps(2) jk by simp
  finally show ?case .
qed

lemma ceil_pow_of_2_between:
  assumes "2 ^ k < v" "v \<le> 2 ^ Suc k"
  shows "ceil_pow_of_2 v = 2 ^ Suc k"
  using pow2_from_between[OF assms, of 0] by (simp add: ceil_pow_of_2_def)

lemma log2_81920: "16 < log 2 81920" "log 2 81920 < 17"
proof -
  have a: "log 2 65536 = 16" using log_pow_cancel[of 2 16] by simp
  have b: "log 2 131072 = 17" using log_pow_cancel[of 2 17] by simp
  have "log 2 65536 < log 2 81920" by (subst log_less_cancel_iff) simp_all
  then show "16 < log 2 81920" using a by simp
  have "log 2 81920 < log 2 131072" by (subst log_less_cancel_iff) simp_all
  then show "log 2 81920 < 17" using b by simp
qed

lemma loggedSize_8192: "2 ^ 15 < loggedSize 8192" "loggedSize 8192 \<le> 2 ^ 16"
proof -
  define x :: real where "x = 8192 * (log 2 81920 / 3)"
  have ls: "loggedSize 8192 = nat \<lceil>x\<rceil>" by (simp add: loggedSize_def x_def)
  have lo: "32768 < x" unfolding x_def using log2_81920(1) by simp
  have hi: "x \<le> 65536" unfolding x_def using log2_81920(2) by simp
  have c: "(32768::int) < \<lceil>x\<rceil>" using lo by (simp add: less_ceiling_iff)
  have "(32768::nat) < nat \<lceil>x\<rceil>" using c by linarith
  then show "2 ^ 15 < loggedSize 8192" unfolding ls by simp
  have d: "\<lceil>x\<rceil> \<le> (65536::int)" using hi by (simp add: ceiling_le_iff)
  have "nat \<lceil>x\<rceil> \<le> (65536::nat)" using d by linarith
  then show "loggedSize 8192 \<le> 2 ^ 16" unfolding ls by simp
qed

lemma reserveTarget_10K_8K: "reserveTarget 10240 8192 = 65536"
proof -
  have a: "ceil_pow_of_2 (unat (10240 * 2 :: size_t)) = 2 ^ 15"
    using ceil_pow_of_2_between[of 14 20480] by simp
  have b: "ceil_pow_of_2 (loggedSize 8192) = 2 ^ 16"
    using ceil_pow_of_2_between[of 15 "loggedSize 8192"] loggedSize_8192 by simp
  show ?thesis unfolding reserveTarget_def a b by simp
qed


lemma base_overflows:
  fixes u :: size_t
  assumes "u \<le> 8192"
  shows "8192 \<le> u + 10240"
proof -
  have "unat u \<le> 8192" using assms by (simp add: word_le_nat_alt)
  then have "unat (u + 10240) = unat u + 10240" by (simp add: unat_word_ariths)
  then show ?thesis by (simp add: word_le_nat_alt)
qed

lemma temporary_ALLOCATE_10K:
  assumes "u \<le> 8192" "st1 \<noteq> 0"
  shows "temporary_allocator mode_ALLOCATE (base_8K st0 u t) 10240 0 0
           \<lparr>Supply = node # st1 # rest, Live = L, Requests = R\<rparr> m =
         Inr (st1,
              \<lparr>Base = \<lparr>Storage = st0, Reserved = 8192, Used = u\<rparr>,
               Overflow = [(node, \<lparr>Storage = st1, Reserved = 65536, Used = 10240\<rparr>)],
               TotalUsed = t + 10240\<rparr>,
              \<lparr>Supply = rest, Live = insert st1 (insert node L), Requests = R @ [32, 65536]\<rparr>, m)"
  using assms base_overflows[OF assms(1)]
  by (simp add: temporary_allocator_def temporary_init_def temporary_ALLOCATE_def chain_def
      base_8K_def bump_page_def Malloc_new_def New_u8_def reserveTarget_10K_8K Let_def)

lemma temporary_FREE_ALL_after:
  shows "temporary_allocator mode_FREE_ALL
           \<lparr>Base = \<lparr>Storage = st0, Reserved = 8192, Used = u\<rparr>,
            Overflow = [(node, \<lparr>Storage = st1, Reserved = 65536, Used = 10240\<rparr>)],
            TotalUsed = t'\<rparr> 0 0 0
           \<lparr>Supply = st2 # rest, Live = L, Requests = R\<rparr> m =
         Inr (0,
              \<lparr>Base = \<lparr>Storage = st2, Reserved = 73728, Used = 0\<rparr>, Overflow = [], TotalUsed = 0\<rparr>,
              \<lparr>Supply = rest, Live = insert st2 (L - {st1} - {node} - {st0}), Requests = R @ [73728]\<rparr>, m)"
  by (simp add: temporary_allocator_def temporary_init_def temporary_FREE_ALL_def
      Malloc_new_def New_u8_def Delete_def Let_def)


text \<open>
  C4: against a base page of 8 KiB (\<open>u \<le> 8192\<close> bytes of it used), one \<open>ALLOCATE\<close>
  of 10 KiB appends exactly one overflow page.  Its capacity is 64 KiB: the larger of
  \<open>ceil_pow_of_2(2 * 10 KiB) = 32 KiB\<close> and \<open>ceil_pow_of_2(loggedSize(8 KiB)) = 64 KiB\<close>,
  already a multiple of 8 KiB; it is at least 10 KiB and a multiple of 16 KiB.  The
  allocation is the first 10 KiB of that page's storage, so it lies within one page.  A
  following \<open>FREE_ALL\<close> removes the overflow page and gives the base page a new storage
  of 72 KiB, the sum of the capacities of all pages before.
\<close>

theorem temporary_10K_on_8K_base:
  assumes "u \<le> 8192" "st1 \<noteq> 0"
  shows "\<exists>d1 a1 d2 a2 pg.
     temporary_allocator mode_ALLOCATE (base_8K st0 u t) 10240 0 0
        \<lparr>Supply = node # st1 # st2 # rest, Live = L, Requests = R\<rparr> m = Inr (st1, d1, a1, m) \<and>
     Base d1 = Base (base_8K st0 u t) \<and>
     map snd (Overflow d1) = [pg] \<and>
     Storage pg = st1 \<and> Used pg = 10240 \<and> Reserved pg = 65536 \<and>
     10240 \<le> unat (Reserved pg) \<and> 16384 dvd unat (Reserved pg) \<and>
     unat (Used pg) \<le> unat (Reserved pg) \<and>
     Requests a1 = R @ [32, 65536] \<and>
     capacities d1 = 73728 \<and>
     temporary_allocator mode_FREE_ALL d1 0 0 0 a1 m = Inr (0, d2, a2, m) \<and>
     Overflow d2 = [] \<and> Used (Base d2) = 0 \<and> Storage (Base d2) = st2 \<and>
     capacities d1 \<le> unat (Reserved (Base d2)) \<and> capacities d2 = 73728"
proof -
  let ?pg = "\<lparr>Storage = st1, Reserved = 65536, Used = 10240\<rparr>"
  let ?d1 = "\<lparr>Base = \<lparr>Storage = st0, Reserved = 8192, Used = u\<rparr>,
              Overflow = [(node, ?pg)], TotalUsed = t + 10240\<rparr>"
  let ?a1 = "\<lparr>Supply = st2 # rest, Live = insert st1 (insert node L), Requests = R @ [32, 65536]\<rparr>"
  let ?d2 = "\<lparr>Base = \<lparr>Storage = st2, Reserved = 73728, Used = 0\<rparr>, Overflow = [], TotalUsed = 0\<rparr>"
  let ?a2 = "\<lparr>Supply = rest, Live = insert st2 (insert st1 (insert node L) - {st1} - {node} - {st0}),
              Requests = (R @ [32, 65536]) @ [73728]\<rparr>"
  have A: "temporary_allocator mode_ALLOCATE (base_8K st0 u t) 10240 0 0
        \<lparr>Supply = node # st1 # st2 # rest, Live = L, Requests = R\<rparr> m = Inr (st1, ?d1, ?a1, m)"
    by (rule temporary_ALLOCATE_10K[OF assms])
  have F: "temporary_allocator mode_FREE_ALL ?d1 0 0 0 ?a1 m = Inr (0, ?d2, ?a2, m)"
    by (rule temporary_FREE_ALL_after)
  have c1: "capacities ?d1 = 73728" and c2: "capacities ?d2 = 73728"
    by (simp_all add: capacities_def chain_def)
  show ?thesis
    apply (rule exI[of _ ?d1], rule exI[of _ ?a1], rule exI[of _ ?d2], rule exI[of _ ?a2],
        rule exI[of _ ?pg])
    apply (simp only: A F c1 c2)
    apply (simp add: base_8K_def)
    done
qed

theorem temporary_10K_on_8K_base_witness:
  "(0 :: size_t) \<le> 8192 \<and> (0x20000 :: u8_ptr) \<noteq> 0 \<and>
   (\<exists>d1 a1 d2 a2 pg.
     temporary_allocator mode_ALLOCATE (base_8K 0x10000 0 0) 10240 0 0
        \<lparr>Supply = [0x1F000, 0x20000, 0x40000], Live = {0x10000}, Requests = [8192]\<rparr> blank_memory =
       Inr (0x20000, d1, a1, blank_memory) \<and>
     Base d1 = Base (base_8K 0x10000 0 0) \<and>
     map snd (Overflow d1) = [pg] \<and>
     Storage pg = 0x20000 \<and> Used pg = 10240 \<and> Reserved pg = 65536 \<and>
     10240 \<le> unat (Reserved pg) \<and> 16384 dvd unat (Reserved pg) \<and>
     unat (Used pg) \<le> unat (Reserved pg) \<and>
     Requests a1 = [8192] @ [32, 65536] \<and>
     capacities d1 = 73728 \<and>
     temporary_allocator mode_FREE_ALL d1 0 0 0 a1 blank_memory = Inr (0, d2, a2, blank_memory) \<and>
     Overflow d2 = [] \<and> Used (Base d2) = 0 \<and> Storage (Base d2) = 0x40000 \<and>
     capacities d1 \<le> unat (Reserved (Base d2)) \<and> capacities d2 = 73728)"
proof -
  have h1: "(0 :: size_t) \<le> 8192" by simp
  have h2: "(0x20000 :: u8_ptr) \<noteq> 0" by simp
  note T = temporary_10K_on_8K_base[OF h1 h2, of "0x10000" 0 "0x1F000" "0x40000" "[]"
      "{0x10000}" "[8192]" blank_memory]
  show ?thesis
    by (intro conjI h1 h2 T)
qed

section \<open>\<open>general_reallocate\<close>: shrinking\<close>

text \<open>
  Claim C2: \<open>general_reallocate\<close> returns a pointer whose first \<open>min(old, new)\<close> bytes
  are the original ones.  It does not in a debug build that shrinks a block by moving
  it: 200 bytes at 4200 (raw block 4096 to 4412) are reallocated to 50 bytes; the bump
  allocator answers "must-move" and hands out the next block, at 4412, whose header
  lies at 4416 and whose user bytes at 4520.  The last fill of the shrinking branch,
  \<open>fill_memory((char *) header + oldSize, DEAD_LAND_FILL, oldSize - newSize)\<close>, starts
  at the old header plus the old total size, 4096 + 316 = 4412, and writes 150 bytes:
  over the whole new header and the first 42 user bytes of the new block.  The call
  ends in the assertion of \<open>verify_heap\<close> on the new header ("trying to access freed
  memory") and returns no pointer.
\<close>

theorem general_reallocate_shrink_by_move_fails:
  "outcome shrink_by_move = Some (Inl Trying_to_access_freed_memory)"
  by code_simp

text \<open>
  Claim C7: reallocations keep exactly one header per live allocation in the tracker
  list.  After one allocation of 64 bytes the list is the header at 4096.  Reallocating
  it to 8 bytes moves it to the header at 4280, which \<open>DEBUG_swap_header\<close> makes the
  head of the list; the last fill of the shrinking branch then writes 56 bytes
  \<open>0xDD\<close> from 4096 + 180 = 4276 on, over the \<open>DEBUG_Next\<close> and \<open>DEBUG_Previous\<close> links of
  that header.  The walk of \<open>verify_heap\<close> follows \<open>DEBUG_Next = 0xDDDDDDDDDDDDDDDD\<close> to
  a second "header" that no allocation made (its alignment field reads 0), so the list
  does not hold one header.
\<close>

theorem general_reallocate_shrink_breaks_tracker_list:
  "outcome tracker_after_shrink = Some (Inl Alignment_is_zero)"
  by code_simp

section \<open>The front end of lstd\<close>

subsection \<open>Fixed-width arithmetic, loads and stores\<close>

lemma u16_id: "0 \<le> x \<Longrightarrow> x < 65536 \<Longrightarrow> u16 x = x"
  by (simp add: u16_def)
lemma u32_id: "0 \<le> x \<Longrightarrow> x < 4294967296 \<Longrightarrow> u32 x = x"
  by (simp add: u32_def)
lemma u64_id: "0 \<le> x \<Longrightarrow> x < 18446744073709551616 \<Longrightarrow> u64 x = x"
  by (simp add: u64_def)
lemma s32_id: "- 2147483648 \<le> x \<Longrightarrow> x < 2147483648 \<Longrightarrow> s32 x = x"
  by (simp add: s32_def)
lemma s64_id: "- 9223372036854775808 \<le> x \<Longrightarrow> x < 9223372036854775808 \<Longrightarrow> s64 x = x"
  by (simp add: s64_def)

lemma u64_u64_add_left: "u64 (u64 x + y) = u64 (x + y)"
  by (simp add: u64_def mod_simps)
lemma u64_u64_add_right: "u64 (x + u64 y) = u64 (x + y)"
  by (simp add: u64_def mod_simps)
lemma u64_s64: "u64 (s64 x) = u64 x"
  by (simp add: u64_def s64_def mod_simps)
lemma s64_via_u64: "s64 x = (u64 x + 2 ^ 63) mod 2 ^ 64 - 2 ^ 63"
  by (simp add: u64_def s64_def mod_simps)
lemma s64_cong: "u64 x = u64 y \<Longrightarrow> s64 x = s64 y"
  by (simp only: s64_via_u64)
lemma s64_u64: "s64 (u64 x) = s64 x"
  by (rule s64_cong) (simp add: u64_def)
lemma u64_s64_add_left: "u64 (s64 x + y) = u64 (x + y)"
  using u64_u64_add_left[of "s64 x" y] u64_u64_add_left[of x y] by (simp add: u64_s64)
lemma u64_s64_add_right: "u64 (x + s64 y) = u64 (x + y)"
  using u64_u64_add_right[of x "s64 y"] u64_u64_add_right[of x y] by (simp add: u64_s64)
lemma s64_s64_add_left: "s64 (s64 x + y) = s64 (x + y)"
  by (rule s64_cong) (rule u64_s64_add_left)
lemma s64_u64_add_left: "s64 (u64 x + y) = s64 (x + y)"
  by (rule s64_cong) (rule u64_u64_add_left)
lemma s64_u64_add_right: "s64 (x + u64 y) = s64 (x + y)"
  by (rule s64_cong) (rule u64_u64_add_right)
lemma s64_s64_add_right: "s64 (x + s64 y) = s64 (x + y)"
  by (rule s64_cong) (rule u64_s64_add_right)

lemma bytes_step: "0 \<le> n \<Longrightarrow> (v::int) mod 256 + 256 * ((v div 256) mod n) = v mod (256 * n)"
  by (simp add: zmod_zmult2_eq)

lemma load16_store16_same: "load16 (store16 a v m) a = u16 v"
  using bytes_step[of 256 v] by (simp add: load16_def store16_def u16_def)

lemma split_byte:
  "0 \<le> N \<Longrightarrow> (v::int) div K mod (256 * N) = v div K mod 256 + 256 * (v div (K * 256) mod N)"
  by (simp add: zmod_zmult2_eq zdiv_zmult2_eq)

lemma load64_store64_same: "load64 (store64 a v m) a = u64 v"
proof -
  have b: "load64 (store64 a v m) a =
      v mod 256 + 256 * (v div 256 mod 256 + 256 * (v div 65536 mod 256 +
      256 * (v div 16777216 mod 256 + 256 * (v div 4294967296 mod 256 +
      256 * (v div 1099511627776 mod 256 +
      256 * (v div 281474976710656 mod 256 +
      256 * (v div 72057594037927936 mod 256)))))))"
    by (simp add: load64_def store64_def nat_add_distrib)
  have s0: "v mod 18446744073709551616 = v mod 256 + 256 * (v div 256 mod 72057594037927936)"
    using split_byte[of 72057594037927936 v 1] by simp
  have s1: "v div 256 mod 72057594037927936 = v div 256 mod 256 + 256 * (v div 65536 mod 281474976710656)"
    using split_byte[of 281474976710656 v 256] by simp
  have s2: "v div 65536 mod 281474976710656 = v div 65536 mod 256 + 256 * (v div 16777216 mod 1099511627776)"
    using split_byte[of 1099511627776 v 65536] by simp
  have s3: "v div 16777216 mod 1099511627776 = v div 16777216 mod 256 + 256 * (v div 4294967296 mod 4294967296)"
    using split_byte[of 4294967296 v 16777216] by simp
  have s4: "v div 4294967296 mod 4294967296 = v div 4294967296 mod 256 + 256 * (v div 1099511627776 mod 16777216)"
    using split_byte[of 16777216 v 4294967296] by simp
  have s5: "v div 1099511627776 mod 16777216 = v div 1099511627776 mod 256 + 256 * (v div 281474976710656 mod 65536)"
    using split_byte[of 65536 v 1099511627776] by simp
  have s6: "v div 281474976710656 mod 65536 = v div 281474976710656 mod 256 + 256 * (v div 72057594037927936 mod 256)"
    using split_byte[of 256 v 281474976710656] by simp
  show ?thesis
  proof -
    have p64: "(2::int) ^ 64 = 18446744073709551616" by simp
    show ?thesis
      unfolding b u64_def p64 by (simp only: s0 s1 s2 s3 s4 s5 s6)
  qed
qed

lemma store8_other: "x \<noteq> a \<Longrightarrow> store8 a v m x = m x"
  by (simp add: store8_def)
lemma store16_other: "x < a \<or> a + 2 \<le> x \<Longrightarrow> store16 a v m x = m x"
  by (auto simp: store16_def)
lemma store64_other: "x < a \<or> a + 8 \<le> x \<Longrightarrow> store64 a v m x = m x"
  by (auto simp: store64_def)
lemma fill_memory_other: "x < d \<or> d + u64 n \<le> x \<Longrightarrow> fill_memory d v n m x = m x"
  by (auto simp: fill_memory_def)
lemma zero_memory_other: "x < d \<or> d + u64 n \<le> x \<Longrightarrow> zero_memory d n m x = m x"
  by (simp add: zero_memory_def fill_memory_other)
lemma copy_memory_other: "x < d \<or> d + u64 n \<le> x \<Longrightarrow> copy_memory d s n m x = m x"
  by (auto simp: copy_memory_def)
lemma copy_memory_in: "d \<le> x \<Longrightarrow> x < d + u64 n \<Longrightarrow> copy_memory d s n m x = m (s + (x - d))"
  by (simp add: copy_memory_def)

lemma load64_cong:
  assumes "\<And>i. 0 \<le> i \<Longrightarrow> i < 8 \<Longrightarrow> m' (a + i) = m (a + i)"
  shows "load64 m' a = load64 m a"
  using assms[of 0] assms[of 1] assms[of 2] assms[of 3] assms[of 4] assms[of 5] assms[of 6] assms[of 7]
  by (simp add: load64_def)

lemma load16_cong:
  assumes "\<And>i. 0 \<le> i \<Longrightarrow> i < 2 \<Longrightarrow> m' (a + i) = m (a + i)"
  shows "load16 m' a = load16 m a"
  using assms[of 0] assms[of 1] by (simp add: load16_def)

lemma load64_store64_other: "b + 8 \<le> a \<or> a + 8 \<le> b \<Longrightarrow> load64 (store64 a v m) b = load64 m b"
  by (rule load64_cong) (auto simp: store64_other)
lemma load64_store16_other: "b + 8 \<le> a \<or> a + 2 \<le> b \<Longrightarrow> load64 (store16 a v m) b = load64 m b"
  by (rule load64_cong) (auto simp: store16_other)
lemma load64_store8_other: "b + 8 \<le> a \<or> a + 1 \<le> b \<Longrightarrow> load64 (store8 a v m) b = load64 m b"
  by (rule load64_cong) (auto simp: store8_other)
lemma load64_fill_other: "b + 8 \<le> d \<or> d + u64 n \<le> b \<Longrightarrow> load64 (fill_memory d v n m) b = load64 m b"
  by (rule load64_cong) (auto simp: fill_memory_other)
lemma load64_zero_other: "b + 8 \<le> d \<or> d + u64 n \<le> b \<Longrightarrow> load64 (zero_memory d n m) b = load64 m b"
  by (simp add: zero_memory_def load64_fill_other)
lemma load64_copy_other: "b + 8 \<le> d \<or> d + u64 n \<le> b \<Longrightarrow> load64 (copy_memory d s n m) b = load64 m b"
  by (rule load64_cong) (auto simp: copy_memory_other)

lemma load16_store64_other: "b + 2 \<le> a \<or> a + 8 \<le> b \<Longrightarrow> load16 (store64 a v m) b = load16 m b"
  by (rule load16_cong) (auto simp: store64_other)
lemma load16_store16_other: "b + 2 \<le> a \<or> a + 2 \<le> b \<Longrightarrow> load16 (store16 a v m) b = load16 m b"
  by (rule load16_cong) (auto simp: store16_other)
lemma load16_store8_other: "b + 2 \<le> a \<or> a + 1 \<le> b \<Longrightarrow> load16 (store8 a v m) b = load16 m b"
  by (rule load16_cong) (auto simp: store8_other)
lemma load16_fill_other: "b + 2 \<le> d \<or> d + u64 n \<le> b \<Longrightarrow> load16 (fill_memory d v n m) b = load16 m b"
  by (rule load16_cong) (auto simp: fill_memory_other)
lemma load16_zero_other: "b + 2 \<le> d \<or> d + u64 n \<le> b \<Longrightarrow> load16 (zero_memory d n m) b = load16 m b"
  by (simp add: zero_memory_def load16_fill_other)
lemma load16_copy_other: "b + 2 \<le> d \<or> d + u64 n \<le> b \<Longrightarrow> load16 (copy_memory d s n m) b = load16 m b"
  by (rule load16_cong) (auto simp: copy_memory_other)

lemmas load_other =
  load64_store64_other load64_store16_other load64_store8_other load64_fill_other
  load64_zero_other load64_copy_other
  load16_store64_other load16_store16_other load16_store8_other load16_fill_other
  load16_zero_other load16_copy_other

lemmas byte_other =
  store8_other store16_other store64_other fill_memory_other zero_memory_other copy_memory_other

text \<open>\<open>compare_memory\<close> yields \<open>-1\<close> exactly on equal ranges.\<close>

lemma compare_memory_ge: "0 \<le> i \<Longrightarrow> compare_memory m p bs i \<noteq> - 1 \<Longrightarrow> 0 \<le> compare_memory m p bs i"
  by (induction bs arbitrary: p i) (auto split: if_splits)




subsection \<open>The padding of a raw block\<close>

lemma and_not_mask_int: "(X::int) AND NOT (mask k) = push_bit k (drop_bit k X)"
  by (rule bit_eqI) (auto simp: bit_simps)

lemma and_neg_pow2: "(X::int) AND - (2 ^ k) = X - X mod 2 ^ k"
proof -
  have "X AND - (2 ^ k) = push_bit k (drop_bit k X)"
    by (simp only: minus_exp_eq_not_mask and_not_mask_int)
  also have "\<dots> = 2 ^ k * (X div 2 ^ k)"
    by (simp add: push_bit_eq_mult drop_bit_eq_div)
  also have "\<dots> = X - X mod 2 ^ k"
    by (simp add: minus_mod_eq_mult_div)
  finally show ?thesis .
qed

lemma u64_take_bit: "u64 x = take_bit 64 x"
  by (simp add: u64_def take_bit_eq_mod)

lemma u64_and_u64: "u64 x AND u64 y = u64 (x AND y)"
  by (simp add: u64_take_bit)

lemma pow2_dvd_2_64: "k \<le> 64 \<Longrightarrow> (2::int) ^ k dvd 2 ^ 64"
  by (rule le_imp_power_dvd)

lemma u64_mod_pow2: "k \<le> 64 \<Longrightarrow> u64 x mod 2 ^ k = x mod 2 ^ k"
  unfolding u64_def by (rule mod_mod_cancel) (rule pow2_dvd_2_64)


lemma is_pow_of_2_I: "k < 64 \<Longrightarrow> is_pow_of_2 (2 ^ k)"
  by (auto simp: is_pow_of_2_def)

text \<open>The padding before a pointer: the least offset that aligns it.\<close>

lemma calculate_padding_for_pointer_pow2:
  assumes k: "k \<le> 15"
  shows "calculate_padding_for_pointer ptr (2 ^ k) = Inr ((- ptr) mod 2 ^ k)"
proof -
  let ?a = "(2::int) ^ k"
  have a_pos: "0 < ?a" by simp
  have "?a \<le> 2 ^ 15" using k by (intro power_increasing) simp_all
  then have a_le: "?a \<le> 32768" by simp
  have pow: "is_pow_of_2 ?a" using k by (intro is_pow_of_2_I) simp
  let ?X = "u64 (u64 ptr + u64 (?a - 1))"
  have "?X = u64 (ptr + (?a - 1))"
    by (simp only: u64_u64_add_left u64_u64_add_right)
  then have X: "?X = u64 (ptr + ?a - 1)"
    by (simp only: add_diff_eq)
  have "?X AND u64 (- ?a) = u64 (u64 (ptr + ?a - 1) AND - ?a)"
    unfolding X by (simp add: u64_take_bit)
  also have "\<dots> = u64 (u64 (ptr + ?a - 1) - u64 (ptr + ?a - 1) mod ?a)"
    by (simp only: and_neg_pow2)
  also have "u64 (ptr + ?a - 1) mod ?a = (ptr + ?a - 1) mod ?a"
    using k by (intro u64_mod_pow2) simp
  finally have A: "?X AND u64 (- ?a) = u64 (u64 (ptr + ?a - 1) - (ptr + ?a - 1) mod ?a)" .
  have "u64 ((?X AND u64 (- ?a)) - u64 ptr) = u64 ((ptr + ?a - 1) - (ptr + ?a - 1) mod ?a - ptr)"
    unfolding A by (simp add: u64_def mod_simps)
  also have "(ptr + ?a - 1) - (ptr + ?a - 1) mod ?a - ptr = ?a - 1 - (ptr - 1) mod ?a"
    by (simp add: algebra_simps) (metis add.commute mod_add_self2 diff_add_eq)
  also have "?a - 1 - (ptr - 1) mod ?a = (- ptr) mod ?a"
  proof -
    have r: "0 \<le> (ptr - 1) mod ?a" "(ptr - 1) mod ?a < ?a" using a_pos by simp_all
    have "(?a - 1 - (ptr - 1) mod ?a) mod ?a = (- 1 - (ptr - 1)) mod ?a"
      by (metis (no_types, opaque_lifting) diff_diff_eq2 diff_minus_eq_add minus_diff_eq mod_add_self2 mod_diff_right_eq uminus_add_conv_diff add.commute diff_add_cancel)
    then have "(?a - 1 - (ptr - 1) mod ?a) mod ?a = (- ptr) mod ?a" by simp
    moreover have "(?a - 1 - (ptr - 1) mod ?a) mod ?a = ?a - 1 - (ptr - 1) mod ?a"
      using r by (intro mod_pos_pos_trivial) linarith+
    ultimately show ?thesis by simp
  qed
  finally have B: "u64 ((?X AND u64 (- ?a)) - u64 ptr) = u64 ((- ptr) mod ?a)" .
  have r2: "0 \<le> (- ptr) mod ?a" "(- ptr) mod ?a < ?a" using a_pos by simp_all
  have c1: "(- ptr) mod ?a < 65536" using r2(2) a_le by linarith
  have c2: "(- ptr) mod ?a < 18446744073709551616" using c1 by linarith
  have C: "u16 (u64 ((- ptr) mod ?a)) = (- ptr) mod ?a"
    by (simp only: u64_id[OF r2(1) c2] u16_id[OF r2(1) c1])
  show ?thesis
    unfolding calculate_padding_for_pointer_def using pow a_pos by (simp only: B C) simp
qed

lemma aligned_after_padding: "(ptr + ((- ptr) mod a + a * n)) mod (a::int) = 0"
proof -
  have "(ptr + ((- ptr) mod a + a * n)) mod a = (ptr + (- ptr) mod a) mod a"
    by (metis add.assoc mod_mult_self2)
  also have "\<dots> = (ptr + - ptr) mod a"
    by (simp only: mod_add_right_eq)
  finally show ?thesis by simp
qed

lemma padding_with_header:
  assumes k: "k \<le> 15" and H: "0 < H" "H \<le> 104"
  shows "\<exists>pad. calculate_padding_for_pointer_with_header ptr (s32 (2 ^ k)) (u32 H) = Inr pad \<and>
           H \<le> pad \<and> pad < H + 2 ^ k \<and> (ptr + pad) mod 2 ^ k = 0"
proof -
  let ?a = "(2::int) ^ k"
  have a_pos: "0 < ?a" by simp
  have "?a \<le> 2 ^ 15" using k by (intro power_increasing) simp_all
  then have a_le: "?a \<le> 32768" by simp
  have sa: "s32 ?a = ?a" using a_pos a_le by (intro s32_id) linarith+
  have ua: "u32 ?a = ?a" using a_pos a_le by (intro u32_id) linarith+
  have uH: "u32 H = H" using H by (intro u32_id) linarith+
  let ?p0 = "(- ptr) mod ?a"
  have p0: "0 \<le> ?p0" "?p0 < ?a" using a_pos by simp_all
  note P = calculate_padding_for_pointer_pow2[OF k, of ptr]
  show ?thesis
  proof (cases "?p0 < H")
    case False
    have c: "calculate_padding_for_pointer_with_header ptr (s32 ?a) (u32 H) = Inr ?p0"
      unfolding calculate_padding_for_pointer_with_header_def sa uH P using False by simp
    have al: "(ptr + ?p0) mod ?a = 0"
      using aligned_after_padding[of ptr ?a 0] by simp
    have lo: "H \<le> ?p0" using False by simp
    have hi: "?p0 < H + ?a" using p0(2) H(1) by linarith
    show ?thesis by (rule exI[of _ ?p0]) (intro conjI c lo hi al)
  next
    case True
    let ?hs = "H - ?p0"
    have hs: "0 < ?hs" "?hs \<le> 104" using True p0 H by linarith+
    have uhs: "u32 ?hs = ?hs" using hs by (intro u32_id) linarith+
    let ?q = "?hs div ?a"
    let ?r = "?hs mod ?a"
    have q0: "0 \<le> ?q" using hs a_pos by (simp add: pos_imp_zdiv_nonneg_iff)
    have r: "0 \<le> ?r" "?r < ?a" using a_pos by simp_all
    have dm: "?hs = ?a * ?q + ?r" by simp
    have aq: "?a * ?q \<le> ?hs" using r(1) dm by linarith
    have aq0: "0 \<le> ?a * ?q" using q0 a_pos by simp
    show ?thesis
    proof (cases "?r = 0")
      case True
      let ?pad = "?p0 + ?a * ?q"
      have eq: "?pad = H" using dm True by linarith
      have u1: "u32 (?a * ?q) = ?a * ?q" using aq aq0 hs by (intro u32_id) linarith+
      have u2: "u16 ?pad = ?pad" using eq H by (intro u16_id) linarith+
      have c: "calculate_padding_for_pointer_with_header ptr (s32 ?a) (u32 H) = Inr ?pad"
        unfolding calculate_padding_for_pointer_with_header_def sa uH P ua
        using \<open>?p0 < H\<close> True by (simp add: uhs u1 u2 Let_def)
      have al: "(ptr + ?pad) mod ?a = 0" by (rule aligned_after_padding)
      have lo: "H \<le> ?pad" using eq by simp
      have hi: "?pad < H + ?a" using eq a_pos by simp
      show ?thesis by (rule exI[of _ ?pad]) (intro conjI c lo hi al)
    next
      case False
      let ?pad = "?p0 + ?a * (1 + ?q)"
      have ex: "?a * (1 + ?q) = ?a + ?a * ?q" by (simp add: algebra_simps)
      have rpos: "0 < ?r" using False r(1) by linarith
      have lo: "H \<le> ?pad" using dm r(2) ex by linarith
      have hi: "?pad < H + ?a" using dm rpos ex by linarith
      have u0: "u32 (1 + ?q) = 1 + ?q"
      proof (rule u32_id)
        show "0 \<le> 1 + ?q" using q0 by simp
        have "?q \<le> ?a * ?q" using mult_right_mono[of 1 ?a ?q] a_pos q0 by simp
        then have "?q \<le> ?hs" using aq by linarith
        then show "1 + ?q < 4294967296" using hs by linarith
      qed
      have u1: "u32 (?a * (1 + ?q)) = ?a * (1 + ?q)"
        using aq aq0 hs a_le a_pos ex by (intro u32_id) linarith+
      have u2: "u16 ?pad = ?pad" using lo hi H a_le by (intro u16_id) linarith+
      have c: "calculate_padding_for_pointer_with_header ptr (s32 ?a) (u32 H) = Inr ?pad"
        unfolding calculate_padding_for_pointer_with_header_def sa uH P ua
        using \<open>?p0 < H\<close> False by (simp add: uhs u0 u1 u2 Let_def)
      have al: "(ptr + ?pad) mod ?a = 0" by (rule aligned_after_padding)
      show ?thesis by (rule exI[of _ ?pad]) (intro conjI c lo hi al)
    qed
  qed
qed

subsection \<open>What \<open>encode_header\<close> writes\<close>

lemmas offs = off_DEBUG_Next_def off_DEBUG_Previous_def off_ID_def off_RID_def off_FileName_def
  off_FileLine_def off_Function_def off_Context_def off_Size_def off_Owner_def
  off_DEBUG_Pointer_def off_Alignment_def off_AlignmentPadding_def off_MarkedAsLeak_def
  sizeof_allocation_header_def NO_MANS_LAND_SIZE_def

lemma u16_idem: "u16 (u16 x) = u16 x"
  by (simp add: u16_def)
lemma u64_idem: "u64 (u64 x) = u64 x"
  by (simp add: u64_def)
lemma u64_4: "u64 4 = 4"
  by (simp add: u64_def)
lemma u64_NML: "u64 NO_MANS_LAND_SIZE = 4"
  by (simp add: u64_def NO_MANS_LAND_SIZE_def)

lemma encode_header_bytes_frame:
  assumes s: "0 \<le> s" "s < 2 ^ 63"
    and x: "x < h \<or> h + sizeof_allocation_header dbg + s + (if dbg then 4 else 0) \<le> x"
  shows "encode_header_bytes dbg h s a ap f c flags cnt m x = m x"
proof -
  have us: "u64 s = s" using s by (intro u64_id) simp_all
  show ?thesis
    using x s(1)
    by (cases dbg) (auto simp: encode_header_bytes_def Let_def offs byte_other us u64_4)
qed

lemma encode_header_bytes_fields:
  assumes s: "0 \<le> s" "s < 2 ^ 63"
  shows "load64 (encode_header_bytes dbg h s a ap f c flags cnt m) (h + off_Size dbg) = u64 s"
    and "load16 (encode_header_bytes dbg h s a ap f c flags cnt m) (h + off_Alignment dbg) = u16 a"
    and "load16 (encode_header_bytes dbg h s a ap f c flags cnt m) (h + off_AlignmentPadding dbg) = u16 ap"
    and "load64 (encode_header_bytes dbg h s a ap f c flags cnt m) (h + off_Function dbg) = u64 f"
    and "load64 (encode_header_bytes dbg h s a ap f c flags cnt m) (h + off_Context dbg) = u64 c"
proof -
  have us: "u64 s = s" using s by (intro u64_id) simp_all
  note sm = encode_header_bytes_def Let_def offs load_other us u64_4
    load64_store64_same load16_store16_same u16_idem
  show "load64 (encode_header_bytes dbg h s a ap f c flags cnt m) (h + off_Size dbg) = u64 s"
    using s(1) by (cases dbg) (simp_all add: sm)
  show "load16 (encode_header_bytes dbg h s a ap f c flags cnt m) (h + off_Alignment dbg) = u16 a"
    using s(1) by (cases dbg) (simp_all add: sm)
  show "load16 (encode_header_bytes dbg h s a ap f c flags cnt m) (h + off_AlignmentPadding dbg) = u16 ap"
    using s(1) by (cases dbg) (simp_all add: sm)
  show "load64 (encode_header_bytes dbg h s a ap f c flags cnt m) (h + off_Function dbg) = u64 f"
    using s(1) by (cases dbg) (simp_all add: sm)
  show "load64 (encode_header_bytes dbg h s a ap f c flags cnt m) (h + off_Context dbg) = u64 c"
    using s(1) by (cases dbg) (simp_all add: sm)
qed

lemma pow2_bounds:
  assumes "3 \<le> k" "k \<le> 15"
  shows "(8::int) \<le> 2 ^ k" "(2::int) ^ k \<le> 32768" "is_pow_of_2 (2 ^ k)"
proof -
  have "(2::int) ^ 3 \<le> 2 ^ k" using assms(1) by (intro power_increasing) simp_all
  then show "(8::int) \<le> 2 ^ k" by simp
  have "(2::int) ^ k \<le> 2 ^ 15" using assms(2) by (intro power_increasing) simp_all
  then show "(2::int) ^ k \<le> 32768" by simp
  show "is_pow_of_2 (2 ^ k)" using assms(2) by (intro is_pow_of_2_I) simp
qed

lemma encode_header_Inr:
  assumes k: "k \<le> 15" and b0: "block \<noteq> 0"
  shows "\<exists>pad. sizeof_allocation_header dbg \<le> pad \<and> pad < sizeof_allocation_header dbg + 2 ^ k \<and>
           (block + pad) mod 2 ^ k = 0 \<and>
           encode_header dbg block s (2 ^ k) f c flags w =
             Inr (block + pad,
                  w\<lparr>Mem := encode_header_bytes dbg (block + pad - sizeof_allocation_header dbg) s (2 ^ k)
                              (pad - sizeof_allocation_header dbg) f c flags (AllocationCount w) (Mem w),
                    AllocationCount :=
                      (if dbg then s64 (AllocationCount w + 1) else AllocationCount w)\<rparr>)"
proof -
  let ?H = "sizeof_allocation_header dbg"
  let ?a = "(2::int) ^ k"
  have H: "0 < ?H" "?H \<le> 104" by (simp_all add: sizeof_allocation_header_def)
  have uH: "u32 ?H = ?H" using H by (intro u32_id) linarith+
  have "?a \<le> 2 ^ 15" using k by (intro power_increasing) simp_all
  then have a_le: "?a \<le> 32768" by simp
  from padding_with_header[OF k H, of block]
  obtain pad where P: "calculate_padding_for_pointer_with_header block (s32 ?a) (u32 ?H) = Inr pad \<and>
           ?H \<le> pad \<and> pad < ?H + ?a \<and> (block + pad) mod ?a = 0" ..
  from P have c: "calculate_padding_for_pointer_with_header block (s32 ?a) (u32 ?H) = Inr pad"
    by (rule conjunct1)
  from P have lo: "?H \<le> pad" by (elim conjE)
  from P have hi: "pad < ?H + ?a" by (elim conjE)
  from P have al: "(block + pad) mod ?a = 0" by (elim conjE)
  have uap: "u32 (pad - ?H) = pad - ?H" using lo hi a_le by (intro u32_id) linarith+
  have "u64 (block + pad) AND u64 (- ?a) = u64 ((block + pad) AND - ?a)"
    by (rule u64_and_u64)
  also have "(block + pad) AND - ?a = block + pad - (block + pad) mod ?a"
    by (rule and_neg_pow2)
  finally have ok: "u64 (block + pad) AND u64 (- ?a) = u64 (block + pad)"
    using al by simp
  have e: "encode_header dbg block s ?a f c flags w =
             Inr (block + pad,
                  w\<lparr>Mem := encode_header_bytes dbg (block + pad - ?H) s ?a
                              (pad - ?H) f c flags (AllocationCount w) (Mem w),
                    AllocationCount :=
                      (if dbg then s64 (AllocationCount w + 1) else AllocationCount w)\<rparr>)"
    by (simp add: encode_header_def c uap Let_def ok add_diff_eq b0 split del: if_split)
  show ?thesis by (rule exI[of _ pad]) (intro conjI lo hi al e)
qed

lemma total_size_u64:
  assumes s: "0 \<le> s" "s < 2 ^ 63" and a: "0 < a" "a \<le> 32768"
  shows "u64 (total_size dbg s a) =
         s + a + sizeof_allocation_header dbg + sizeof_allocation_header dbg mod a + (if dbg then 4 else 0)"
proof -
  let ?H = "sizeof_allocation_header dbg"
  let ?e = "(if dbg then 4 else 0 :: int)"
  have H: "0 < ?H" "?H \<le> 104" by (simp_all add: sizeof_allocation_header_def)
  have m: "0 \<le> ?H mod a" "?H mod a < a" using a by simp_all
  have s': "s < 9223372036854775808" using s(2) by simp
  have e: "0 \<le> ?e" "?e \<le> 4" by simp_all
  have "u64 (total_size dbg s a) = u64 (s + a + ?H + ?H mod a + ?e)"
    by (cases dbg)
       (simp_all add: total_size_def Let_def u64_s64 u64_s64_add_left u64_u64_add_left
          u64_u64_add_right NO_MANS_LAND_SIZE_def u64_idem)
  also have "\<dots> = s + a + ?H + ?H mod a + ?e"
  proof (rule u64_id)
    show "0 \<le> s + a + ?H + ?H mod a + ?e" using s(1) a(1) H(1) m(1) e(1) by linarith
    show "s + a + ?H + ?H mod a + ?e < 18446744073709551616"
      using s' a(2) H(2) m(2) e(2) by linarith
  qed
  finally show ?thesis .
qed




subsection \<open>\<open>general_allocate\<close> on a power-of-two alignment from 8 to 32768\<close>

lemma general_allocate_eq:
  fixes W :: "int \<Rightarrow> 's world" and fn fl :: int
  assumes k: "3 \<le> k" "k \<le> 15"
    and call: "ft f ALLOCATE c (total_size dbg s (2 ^ k)) 0 0 (opts OR AllocOptions cx) (Mem w) (Backing w)
                 = (block, o1, m1, st1)"
    and b0: "block \<noteq> 0"
  defines "W \<equiv> \<lambda>pad.
     (let h = block + pad - sizeof_allocation_header dbg;
          w2 = w\<lparr>Backing := st1,
                   Calls := Calls w @ [(ALLOCATE, f, c, total_size dbg s (2 ^ k), 0, 0)],
                   Mem := encode_header_bytes dbg h s (2 ^ k) (pad - sizeof_allocation_header dbg)
                             f c o1 (AllocationCount w) m1,
                   AllocationCount := (if dbg then s64 (AllocationCount w + 1) else AllocationCount w)\<rparr>
      in if dbg
         then DEBUG_add_header h
                (w2\<lparr>Mem := store64 (h + off_FileLine) fl (store64 (h + off_FileName) fn (Mem w2))\<rparr>)
         else w2)"
  shows "\<exists>pad. sizeof_allocation_header dbg \<le> pad \<and> pad < sizeof_allocation_header dbg + 2 ^ k \<and>
           (block + pad) mod 2 ^ k = 0 \<and>
           general_allocate dbg ft cx (f, c) s (2 ^ k) opts fn fl w =
             (case verify_heap dbg (W pad) of
                None \<Rightarrow> None
              | Some (Some e) \<Rightarrow> Some (Inl e)
              | Some None \<Rightarrow> Some (Inr (block + pad, W pad)))"
proof -
  let ?H = "sizeof_allocation_header dbg"
  let ?a = "(2::int) ^ k"
  note pb = pow2_bounds[OF k]
  let ?w1 = "w\<lparr>Mem := m1, Backing := st1,
               Calls := Calls w @ [(ALLOCATE, f, c, total_size dbg s ?a, 0, 0)]\<rparr>"
  from encode_header_Inr[OF k(2) b0, of dbg s f c o1 ?w1]
  obtain pad where P: "?H \<le> pad \<and> pad < ?H + ?a \<and> (block + pad) mod ?a = 0 \<and>
           encode_header dbg block s ?a f c o1 ?w1 =
             Inr (block + pad,
                  ?w1\<lparr>Mem := encode_header_bytes dbg (block + pad - ?H) s ?a
                              (pad - ?H) f c o1 (AllocationCount ?w1) (Mem ?w1),
                    AllocationCount :=
                      (if dbg then s64 (AllocationCount ?w1 + 1) else AllocationCount ?w1)\<rparr>)" ..
  from P have lo: "?H \<le> pad" by (elim conjE)
  from P have hi: "pad < ?H + ?a" by (elim conjE)
  from P have al: "(block + pad) mod ?a = 0" by (elim conjE)
  from P have e: "encode_header dbg block s ?a f c o1 ?w1 =
             Inr (block + pad,
                  ?w1\<lparr>Mem := encode_header_bytes dbg (block + pad - ?H) s ?a
                              (pad - ?H) f c o1 (AllocationCount ?w1) (Mem ?w1),
                    AllocationCount :=
                      (if dbg then s64 (AllocationCount ?w1 + 1) else AllocationCount ?w1)\<rparr>)"
    by (elim conjE)
  have nz: "?a \<noteq> 0" by simp
  have ge: "\<not> ?a < POINTER_SIZE" using pb(1) by (simp add: POINTER_SIZE_def)
  have g: "general_allocate dbg ft cx (f, c) s ?a opts fn fl w =
             (case verify_heap dbg (W pad) of
                None \<Rightarrow> None
              | Some (Some e) \<Rightarrow> Some (Inl e)
              | Some None \<Rightarrow> Some (Inr (block + pad, W pad)))"
    unfolding general_allocate_def W_def using e call
    by (cases dbg) (simp_all add: nz ge pb(3) call_allocator_def Let_def cong: option.case_cong)
  show ?thesis by (rule exI[of _ pad]) (intro conjI lo hi al g)
qed

lemma general_allocate_clamped:
  assumes c: "clamped_alignment cx alignment = 2 ^ k" and k: "3 \<le> k" "k \<le> 15"
    and d: "alignment = 0 \<longrightarrow> is_pow_of_2 (AllocAlignment cx)"
  shows "general_allocate dbg ft cx alloc s alignment opts fn fl w =
         general_allocate dbg ft cx alloc s (2 ^ k) opts fn fl w"
proof -
  note pb = pow2_bounds[OF k]
  have nz: "(2::int) ^ k \<noteq> 0" by simp
  have ge: "\<not> (2::int) ^ k < POINTER_SIZE" using pb(1) by (simp add: POINTER_SIZE_def)
  have r: "(let a1 = (if (2::int) ^ k = 0 then AllocAlignment cx else 2 ^ k)
            in if a1 < POINTER_SIZE then POINTER_SIZE else a1) = 2 ^ k"
    using nz ge by (simp add: Let_def)
  have l: "(let a1 = (if alignment = 0 then AllocAlignment cx else alignment)
            in if a1 < POINTER_SIZE then POINTER_SIZE else a1) = 2 ^ k"
    using c by (simp add: clamped_alignment_def)
  show ?thesis
  proof (cases "alignment = 0")
    case True
    with d have pw: "is_pow_of_2 (AllocAlignment cx)" by simp
    from l True have l': "(if AllocAlignment cx < POINTER_SIZE then POINTER_SIZE else AllocAlignment cx)
        = 2 ^ k" by (simp add: Let_def)
    show ?thesis
      unfolding general_allocate_def using True pw l' nz ge
      by (cases alloc) (simp add: Let_def cong: option.case_cong sum.case_cong)
  next
    case False
    from l False have l': "(if alignment < POINTER_SIZE then POINTER_SIZE else alignment) = 2 ^ k"
      by (simp add: Let_def)
    show ?thesis
      unfolding general_allocate_def using False l' nz ge
      by (cases alloc) (simp add: Let_def cong: option.case_cong sum.case_cong)
  qed
qed

lemma general_allocate_cases:
  fixes w :: "'s world" and fn fl :: int
  assumes k: "3 \<le> k" "k \<le> 15"
    and call: "ft f ALLOCATE c (total_size dbg s (2 ^ k)) 0 0 (opts OR AllocOptions cx) (Mem w) (Backing w)
                 = (block, o1, m1, st1)"
    and b0: "block \<noteq> 0"
  shows "\<exists>p w'.
           block + sizeof_allocation_header dbg \<le> p \<and>
           p < block + sizeof_allocation_header dbg + 2 ^ k \<and>
           p mod 2 ^ k = 0 \<and>
           Mem w' = allocated_memory dbg (DEBUG_Head w) (p - sizeof_allocation_header dbg) block s
                      (2 ^ k) f c o1 (AllocationCount w) fn fl m1 \<and>
           DEBUG_Head w' = (if dbg then p - sizeof_allocation_header dbg else DEBUG_Head w) \<and>
           Calls w' = Calls w @ [(ALLOCATE, f, c, total_size dbg s (2 ^ k), 0, 0)] \<and>
           Backing w' = st1 \<and>
           general_allocate dbg ft cx (f, c) s (2 ^ k) opts fn fl w =
             (case verify_heap dbg w' of
                None \<Rightarrow> None
              | Some (Some e) \<Rightarrow> Some (Inl e)
              | Some None \<Rightarrow> Some (Inr (p, w')))"
proof -
  let ?H = "sizeof_allocation_header dbg"
  let ?W = "\<lambda>pad. (let h = block + pad - ?H;
          w2 = w\<lparr>Backing := st1,
                   Calls := Calls w @ [(ALLOCATE, f, c, total_size dbg s (2 ^ k), 0, 0)],
                   Mem := encode_header_bytes dbg h s (2 ^ k) (pad - ?H)
                             f c o1 (AllocationCount w) m1,
                   AllocationCount := (if dbg then s64 (AllocationCount w + 1) else AllocationCount w)\<rparr>
      in if dbg
         then DEBUG_add_header h
                (w2\<lparr>Mem := store64 (h + off_FileLine) fl (store64 (h + off_FileName) fn (Mem w2))\<rparr>)
         else w2)"
  from general_allocate_eq[where ft=ft and f=f and c=c and dbg=dbg and s=s and opts=opts and cx=cx
      and w=w and fn=fn and fl=fl, OF k call b0]
  obtain pad where P: "?H \<le> pad \<and> pad < ?H + 2 ^ k \<and> (block + pad) mod 2 ^ k = 0 \<and>
           general_allocate dbg ft cx (f, c) s (2 ^ k) opts fn fl w =
             (case verify_heap dbg (?W pad) of
                None \<Rightarrow> None
              | Some (Some e) \<Rightarrow> Some (Inl e)
              | Some None \<Rightarrow> Some (Inr (block + pad, ?W pad)))" ..
  from P have lo: "?H \<le> pad" by (elim conjE)
  from P have hi: "pad < ?H + 2 ^ k" by (elim conjE)
  from P have al: "(block + pad) mod 2 ^ k = 0" by (elim conjE)
  from P have g: "general_allocate dbg ft cx (f, c) s (2 ^ k) opts fn fl w =
             (case verify_heap dbg (?W pad) of
                None \<Rightarrow> None
              | Some (Some e) \<Rightarrow> Some (Inl e)
              | Some None \<Rightarrow> Some (Inr (block + pad, ?W pad)))" by (elim conjE)
  have c1: "block + ?H \<le> block + pad" using lo by simp
  have c2: "block + pad < block + ?H + 2 ^ k" using hi by simp
  have e1: "block + pad - ?H - block = pad - ?H" by simp
  have c4: "Mem (?W pad) = allocated_memory dbg (DEBUG_Head w) (block + pad - ?H) block s
                      (2 ^ k) f c o1 (AllocationCount w) fn fl m1"
    by (cases dbg) (simp_all add: Let_def DEBUG_add_header_def e1 allocated_memory_def)
  have c5: "DEBUG_Head (?W pad) = (if dbg then block + pad - ?H else DEBUG_Head w)"
    by (cases dbg) (simp_all add: Let_def DEBUG_add_header_def)
  have c6: "Calls (?W pad) = Calls w @ [(ALLOCATE, f, c, total_size dbg s (2 ^ k), 0, 0)]"
    by (cases dbg) (simp_all add: Let_def DEBUG_add_header_def)
  have c7: "Backing (?W pad) = st1"
    by (cases dbg) (simp_all add: Let_def DEBUG_add_header_def)
  show ?thesis
    by (rule exI[of _ "block + pad"], rule exI[of _ "?W pad"]) (intro conjI c1 c2 al c4 c5 c6 c7 g)
qed

lemma u16_pow2: "k \<le> 15 \<Longrightarrow> u16 (2 ^ k) = 2 ^ k"
proof -
  assume "k \<le> 15"
  then have "(2::int) ^ k \<le> 2 ^ 15" by (intro power_increasing) simp_all
  then show ?thesis by (intro u16_id) simp_all
qed

lemma encode_header_bytes_load64_frame:
  assumes s: "0 \<le> s" "s < 2 ^ 63"
    and b: "b + 8 \<le> h \<or> h + sizeof_allocation_header dbg + s + (if dbg then 4 else 0) \<le> b"
  shows "load64 (encode_header_bytes dbg h s a ap f c flags cnt m) b = load64 m b"
proof (rule load64_cong)
  fix i :: int assume i: "0 \<le> i" "i < 8"
  have "b + i < h \<or> h + sizeof_allocation_header dbg + s + (if dbg then 4 else 0) \<le> b + i"
    using b i by auto
  from encode_header_bytes_frame[OF s this]
  show "encode_header_bytes dbg h s a ap f c flags cnt m (b + i) = m (b + i)" .
qed

lemma allocated_memory_frame:
  assumes s: "0 \<le> s" "s < 2 ^ 63"
    and x: "x < h \<or> h + sizeof_allocation_header dbg + s + (if dbg then 4 else 0) \<le> x"
    and y: "dbg \<longrightarrow> head = 0 \<or> x < head + 8 \<or> head + 16 \<le> x"
  shows "allocated_memory dbg head h block s a f c flags cnt fn fl m x = m x"
proof (cases dbg)
  case False
  then show ?thesis using encode_header_bytes_frame[OF s x]
    by (simp add: allocated_memory_def Let_def)
next
  case True
  from x True have x': "x < h \<or> h + 108 + s \<le> x"
    by (auto simp: sizeof_allocation_header_def)
  from x True have xx: "x < h \<or> h + sizeof_allocation_header True + s + (if True then 4 else 0) \<le> x"
    by simp
  have E: "encode_header_bytes True h s a (h - block) f c flags cnt m x = m x"
    by (rule encode_header_bytes_frame[OF s xx])
  show ?thesis using True x' y s(1) E
    by (auto simp: allocated_memory_def Let_def offs byte_other)
qed

lemma allocated_memory_fields:
  fixes m :: bytes and block a f c cnt fn fl :: int and flags :: "64 word"
  assumes s: "0 \<le> s" "s < 2 ^ 63"
    and y: "dbg \<longrightarrow> head = 0 \<or> head + 16 \<le> h + 48 \<or> h + 92 \<le> head + 8"
  defines "M \<equiv> allocated_memory dbg head h block s a f c flags cnt fn fl m"
  shows "load64 M (h + off_Size dbg) = s"
    and "load16 M (h + off_Alignment dbg) = u16 a"
    and "load16 M (h + off_AlignmentPadding dbg) = u16 (h - block)"
    and "load64 M (h + off_Function dbg) = u64 f"
    and "load64 M (h + off_Context dbg) = u64 c"
proof -
  have us: "u64 s = s" using s by (intro u64_id) simp_all
  note F = encode_header_bytes_fields[OF s, of dbg h a "h - block" f c flags cnt m]
  have all: "load64 M (h + off_Size dbg) = s \<and>
    load16 M (h + off_Alignment dbg) = u16 a \<and>
    load16 M (h + off_AlignmentPadding dbg) = u16 (h - block) \<and>
    load64 M (h + off_Function dbg) = u64 f \<and>
    load64 M (h + off_Context dbg) = u64 c"
  proof (cases dbg)
    case False
    then show ?thesis using F us by (simp add: M_def allocated_memory_def Let_def)
  next
    case True
    have F': "load64 (encode_header_bytes True h s a (h - block) f c flags cnt m) (h + 64) = s"
      "load16 (encode_header_bytes True h s a (h - block) f c flags cnt m) (h + 88) = u16 a"
      "load16 (encode_header_bytes True h s a (h - block) f c flags cnt m) (h + 90) = u16 (h - block)"
      "load64 (encode_header_bytes True h s a (h - block) f c flags cnt m) (h + 48) = u64 f"
      "load64 (encode_header_bytes True h s a (h - block) f c flags cnt m) (h + 56) = u64 c"
      using F True us by (simp_all add: offs)
    from y True have y': "head = 0 \<or> head + 16 \<le> h + 48 \<or> h + 92 \<le> head + 8" by simp
    show ?thesis using True y'
      by (auto simp: M_def allocated_memory_def Let_def offs load_other F')
  qed
  from all show "load64 M (h + off_Size dbg) = s" by (elim conjE)
  from all show "load16 M (h + off_Alignment dbg) = u16 a" by (elim conjE)
  from all show "load16 M (h + off_AlignmentPadding dbg) = u16 (h - block)" by (elim conjE)
  from all show "load64 M (h + off_Function dbg) = u64 f" by (elim conjE)
  from all show "load64 M (h + off_Context dbg) = u64 c" by (elim conjE)
qed



subsection \<open>\<open>verify_header\<close> and the tracker list\<close>












subsection \<open>\<open>general_free\<close> on a decoded header\<close>

lemma u64_mid_s64: "u64 (x + (s64 y + z)) = u64 (x + (y + z))"
  by (metis add.assoc add.commute u64_s64_add_left)

lemma u64_mid_u64: "u64 (x + (u64 y + z)) = u64 (x + (y + z))"
  by (metis add.assoc add.commute u64_u64_add_left)

lemma free_size_eq:
  "(if dbg then s64 (s64 (s64 s + s64 (u64 (u64 (a + sizeof_allocation_header dbg)
                                      + (sizeof_allocation_header dbg mod a)))) + NO_MANS_LAND_SIZE)
    else s64 (s64 s + s64 (u64 (u64 (a + sizeof_allocation_header dbg)
                                      + (sizeof_allocation_header dbg mod a)))))
   = total_size dbg s a"
proof -
  let ?H = "sizeof_allocation_header dbg"
  note R = u64_s64_add_left u64_s64_add_right u64_u64_add_left u64_u64_add_right u64_s64 u64_idem
    u64_mid_s64 u64_mid_u64
  have X: "u64 (s64 s + s64 (u64 (u64 (a + ?H) + ?H mod a))) = u64 (s + (a + (?H + ?H mod a)))"
    by (simp only: R add.assoc)
  have Y: "u64 (u64 (u64 (u64 s + u64 a) + ?H) + ?H mod a) = u64 (s + (a + (?H + ?H mod a)))"
    by (simp only: R add.assoc)
  have XY: "s64 (s64 s + s64 (u64 (u64 (a + ?H) + ?H mod a))) = s64 (u64 (u64 (u64 (u64 s + u64 a) + ?H) + ?H mod a))"
    by (rule s64_cong) (simp only: X Y u64_idem)
  show ?thesis
    unfolding total_size_def Let_def XY by simp
qed

lemma total_size_s64: "total_size dbg (s64 x) a = total_size dbg x a"
  by (simp add: total_size_def u64_s64)

lemma DEBUG_unlink_header_Calls:
  "DEBUG_unlink_header h w = Inr w1 \<Longrightarrow> Calls w1 = Calls w \<and> Backing w1 = Backing w"
  by (auto simp: DEBUG_unlink_header_def Let_def split: if_splits)

text \<open>What \<open>general_free\<close> does after the header has passed \<open>verify_header\<close>.\<close>

lemma general_free_eq:
  fixes w :: "'s world" and dbg :: bool and p :: int
  assumes p0: "p \<noteq> 0"
  defines "h \<equiv> p - sizeof_allocation_header dbg"
  defines "T \<equiv> total_size dbg (header_Size dbg (Mem w) p) (header_Alignment dbg (Mem w) p)"
  shows "general_free dbg ft cx p opts w =
     (case verify_header dbg w h of
        Some e \<Rightarrow> Some (Inl e)
      | None \<Rightarrow>
          if header_Alignment dbg (Mem w) p = 0 then Some (Inl Division_by_zero)
          else
            (case (if dbg
                   then (case DEBUG_unlink_header h w of
                           Inl e \<Rightarrow> Inl e
                         | Inr w1 \<Rightarrow>
                             Inr (w1\<lparr>Mem := fill_memory (raw_block dbg (Mem w) p) DEAD_LAND_FILL T
                                               (Mem w1)\<rparr>))
                   else Inr w) of
               Inl e \<Rightarrow> Some (Inl e)
             | Inr w2 \<Rightarrow>
                 (let (r, options1, w3) =
                        call_allocator ft (header_Function dbg (Mem w) p) FREE
                          (header_Context dbg (Mem w) p) 0 (raw_block dbg (Mem w) p) T
                          (opts OR AllocOptions cx) w2
                  in case verify_heap dbg w3 of
                       None \<Rightarrow> None
                     | Some (Some e) \<Rightarrow> Some (Inl e)
                     | Some None \<Rightarrow> Some (Inr w3))))"
proof -
  have T': "T = (if dbg then s64 (s64 (s64 (load64 (Mem w) (h + off_Size dbg)) +
               s64 (u64 (u64 (load16 (Mem w) (h + off_Alignment dbg) + sizeof_allocation_header dbg)
                    + (sizeof_allocation_header dbg mod load16 (Mem w) (h + off_Alignment dbg))))) +
               NO_MANS_LAND_SIZE)
           else s64 (s64 (load64 (Mem w) (h + off_Size dbg)) +
               s64 (u64 (u64 (load16 (Mem w) (h + off_Alignment dbg) + sizeof_allocation_header dbg)
                    + (sizeof_allocation_header dbg mod load16 (Mem w) (h + off_Alignment dbg))))))"
    unfolding T_def header_Size_def header_Alignment_def h_def[symmetric] total_size_s64
    by (rule free_size_eq[symmetric])
  show ?thesis
    unfolding general_free_def Let_def h_def[symmetric] T'
      header_Function_def header_Context_def header_Alignment_def raw_block_def
      header_AlignmentPadding_def
    using p0 by (cases dbg) (simp_all cong: option.case_cong sum.case_cong)
qed

lemma general_free_call:
  fixes w w'' :: "'s world"
  assumes p0: "p \<noteq> 0"
    and fr: "general_free dbg ft cx p opts w = Some (Inr w'')"
  shows "Calls w'' = Calls w @
           [(FREE, header_Function dbg (Mem w) p, header_Context dbg (Mem w) p, 0,
             raw_block dbg (Mem w) p,
             total_size dbg (header_Size dbg (Mem w) p) (header_Alignment dbg (Mem w) p))]"
    and "header_Alignment dbg (Mem w) p \<noteq> 0"
proof -
  show "Calls w'' = Calls w @
           [(FREE, header_Function dbg (Mem w) p, header_Context dbg (Mem w) p, 0,
             raw_block dbg (Mem w) p,
             total_size dbg (header_Size dbg (Mem w) p) (header_Alignment dbg (Mem w) p))]"
    using fr unfolding general_free_eq[OF p0]
    by (auto simp: call_allocator_def Let_def dest: DEBUG_unlink_header_Calls
             split: option.splits sum.splits prod.splits if_splits)
  show "header_Alignment dbg (Mem w) p \<noteq> 0"
    using fr unfolding general_free_eq[OF p0]
    by (auto split: option.splits if_splits)
qed

lemma general_free_release_returns:
  fixes w :: "'s world"
  assumes p0: "p \<noteq> 0"
    and al: "header_Alignment False (Mem w) p \<noteq> 0"
  shows "\<exists>w''. general_free False ft cx p opts w = Some (Inr w'')"
  unfolding general_free_eq[OF p0] using al
  by (simp add: verify_header_def verify_header_unlocked_def verify_heap_def call_allocator_def
      split: prod.splits)



lemma decode_cong:
  assumes "\<forall>x. p - sizeof_allocation_header dbg + off_Function dbg \<le> x \<and>
               x < p - sizeof_allocation_header dbg + off_AlignmentPadding dbg + 2 \<longrightarrow> m' x = m x"
  shows "decode dbg m' p = decode dbg m p"
proof -
  let ?h = "p - sizeof_allocation_header dbg"
  have k: "\<And>x. ?h + off_Function dbg \<le> x \<Longrightarrow> x < ?h + off_AlignmentPadding dbg + 2 \<Longrightarrow> m' x = m x"
    using assms by blast
  have 1: "load64 m' (?h + off_Function dbg) = load64 m (?h + off_Function dbg)"
    by (rule load64_cong, rule k) (cases dbg; simp add: offs)+
  have 2: "load64 m' (?h + off_Context dbg) = load64 m (?h + off_Context dbg)"
    by (rule load64_cong, rule k) (cases dbg; simp add: offs)+
  have 3: "load64 m' (?h + off_Size dbg) = load64 m (?h + off_Size dbg)"
    by (rule load64_cong, rule k) (cases dbg; simp add: offs)+
  have 4: "load16 m' (?h + off_Alignment dbg) = load16 m (?h + off_Alignment dbg)"
    by (rule load16_cong, rule k) (cases dbg; simp add: offs)+
  have 5: "load16 m' (?h + off_AlignmentPadding dbg) = load16 m (?h + off_AlignmentPadding dbg)"
    by (rule load16_cong, rule k) (cases dbg; simp add: offs)+
  show ?thesis
    unfolding decode_def header_Function_def header_Context_def header_Size_def
      header_Alignment_def header_AlignmentPadding_def 1 2 3 4 5 ..
qed

lemma decode_fields:
  assumes "decode dbg m' p = decode dbg m p"
  shows "header_Function dbg m' p = header_Function dbg m p"
    and "header_Context dbg m' p = header_Context dbg m p"
    and "header_Size dbg m' p = header_Size dbg m p"
    and "header_Alignment dbg m' p = header_Alignment dbg m p"
    and "header_AlignmentPadding dbg m' p = header_AlignmentPadding dbg m p"
    and "raw_block dbg m' p = raw_block dbg m p"
  using assms by (simp_all add: decode_def raw_block_def)

subsection \<open>The header an allocation leaves, and what keeps it\<close>

lemma general_allocate_returned:
  fixes w w1 :: "'s world" and fn fl :: int
  assumes k: "3 \<le> k" "k \<le> 15"
    and call: "ft f ALLOCATE c (total_size dbg s (2 ^ k)) 0 0 (opts OR AllocOptions cx) (Mem w) (Backing w)
                 = (block, o1, m1, st1)"
    and b0: "block \<noteq> 0"
    and ret: "general_allocate dbg ft cx (f, c) s (2 ^ k) opts fn fl w = Some (Inr (p, w1))"
  shows "block + sizeof_allocation_header dbg \<le> p"
    and "p < block + sizeof_allocation_header dbg + 2 ^ k"
    and "p mod 2 ^ k = 0"
    and "Mem w1 = allocated_memory dbg (DEBUG_Head w) (p - sizeof_allocation_header dbg) block s
                      (2 ^ k) f c o1 (AllocationCount w) fn fl m1"
    and "DEBUG_Head w1 = (if dbg then p - sizeof_allocation_header dbg else DEBUG_Head w)"
    and "Calls w1 = Calls w @ [(ALLOCATE, f, c, total_size dbg s (2 ^ k), 0, 0)]"
    and "Backing w1 = st1"
    and "verify_heap dbg w1 = Some None"
proof -
  let ?H = "sizeof_allocation_header dbg"
  let ?T = "total_size dbg s (2 ^ k)"
  from general_allocate_cases[where ft=ft and f=f and c=c and dbg=dbg and s=s and opts=opts and cx=cx
      and w=w and fn=fn and fl=fl, OF k call b0]
  obtain p' where Pp: "\<exists>w'. block + ?H \<le> p' \<and> p' < block + ?H + 2 ^ k \<and> p' mod 2 ^ k = 0 \<and>
           Mem w' = allocated_memory dbg (DEBUG_Head w) (p' - ?H) block s
                      (2 ^ k) f c o1 (AllocationCount w) fn fl m1 \<and>
           DEBUG_Head w' = (if dbg then p' - ?H else DEBUG_Head w) \<and>
           Calls w' = Calls w @ [(ALLOCATE, f, c, ?T, 0, 0)] \<and>
           Backing w' = st1 \<and>
           general_allocate dbg ft cx (f, c) s (2 ^ k) opts fn fl w =
             (case verify_heap dbg w' of
                None \<Rightarrow> None
              | Some (Some e) \<Rightarrow> Some (Inl e)
              | Some None \<Rightarrow> Some (Inr (p', w')))" ..
  then obtain w' where P: "block + ?H \<le> p' \<and> p' < block + ?H + 2 ^ k \<and> p' mod 2 ^ k = 0 \<and>
           Mem w' = allocated_memory dbg (DEBUG_Head w) (p' - ?H) block s
                      (2 ^ k) f c o1 (AllocationCount w) fn fl m1 \<and>
           DEBUG_Head w' = (if dbg then p' - ?H else DEBUG_Head w) \<and>
           Calls w' = Calls w @ [(ALLOCATE, f, c, ?T, 0, 0)] \<and>
           Backing w' = st1 \<and>
           general_allocate dbg ft cx (f, c) s (2 ^ k) opts fn fl w =
             (case verify_heap dbg w' of
                None \<Rightarrow> None
              | Some (Some e) \<Rightarrow> Some (Inl e)
              | Some None \<Rightarrow> Some (Inr (p', w')))" ..
  from P have g: "general_allocate dbg ft cx (f, c) s (2 ^ k) opts fn fl w =
             (case verify_heap dbg w' of
                None \<Rightarrow> None
              | Some (Some e) \<Rightarrow> Some (Inl e)
              | Some None \<Rightarrow> Some (Inr (p', w')))" by (elim conjE)
  from g ret have v: "verify_heap dbg w' = Some None"
    by (cases "verify_heap dbg w'") (auto split: option.splits)
  from g ret v have pw: "p' = p" "w' = w1" by simp_all
  from P show "block + ?H \<le> p" unfolding pw by (elim conjE)
  from P show "p < block + ?H + 2 ^ k" unfolding pw by (elim conjE)
  from P show "p mod 2 ^ k = 0" unfolding pw by (elim conjE)
  from P show "Mem w1 = allocated_memory dbg (DEBUG_Head w) (p - ?H) block s
                      (2 ^ k) f c o1 (AllocationCount w) fn fl m1" unfolding pw by (elim conjE)
  from P show "DEBUG_Head w1 = (if dbg then p - ?H else DEBUG_Head w)" unfolding pw by (elim conjE)
  from P show "Calls w1 = Calls w @ [(ALLOCATE, f, c, ?T, 0, 0)]" unfolding pw by (elim conjE)
  from P show "Backing w1 = st1" unfolding pw by (elim conjE)
  from v show "verify_heap dbg w1 = Some None" unfolding pw .
qed

lemma allocated_decode:
  fixes m1 :: bytes and f c cnt fn fl :: int and flags :: "64 word"
  assumes k: "3 \<le> k" "k \<le> 15"
    and s: "0 \<le> s" "s < 2 ^ 63"
    and p: "block + sizeof_allocation_header dbg \<le> p" "p < block + sizeof_allocation_header dbg + 2 ^ k"
    and clear: "dbg \<longrightarrow> head = 0 \<or> head + 104 \<le> block \<or>
                  block + u64 (total_size dbg s (2 ^ k)) \<le> head"
  defines "M \<equiv> allocated_memory dbg head (p - sizeof_allocation_header dbg) block s
                      (2 ^ k) f c flags cnt fn fl m1"
  shows "decode dbg M p = (u64 f, u64 c, s, 2 ^ k, p - sizeof_allocation_header dbg - block)"
    and "raw_block dbg M p = block"
proof -
  let ?H = "sizeof_allocation_header dbg"
  let ?h = "p - ?H"
  note pb = pow2_bounds[OF k]
  have ss: "s64 s = s" using s by (intro s64_id) simp_all
  have ua: "u16 (2 ^ k) = (2::int) ^ k" by (rule u16_pow2[OF k(2)])
  have uap: "u16 (?h - block) = ?h - block" using p pb(2) by (intro u16_id) linarith+
  have y: "dbg \<longrightarrow> head = 0 \<or> head + 16 \<le> ?h + 48 \<or> ?h + 92 \<le> head + 8"
  proof
    assume dbg: dbg
    have H: "?H = 104" using dbg by (simp add: sizeof_allocation_header_def)
    have ts: "u64 (total_size dbg s (2 ^ k)) = s + 2 ^ k + ?H + ?H mod 2 ^ k + (if dbg then 4 else 0)"
      using pb by (intro total_size_u64[OF s]) linarith+
    have ts': "u64 (total_size dbg s (2 ^ k)) = s + 2 ^ k + 104 + 104 mod 2 ^ k + 4"
      using ts dbg unfolding H by simp
    have md: "0 \<le> 104 mod (2::int) ^ k" by simp
    from clear dbg have c: "head = 0 \<or> head + 104 \<le> block \<or>
        block + (s + 2 ^ k + 104 + 104 mod 2 ^ k + 4) \<le> head" unfolding ts' by simp
    have lo: "block + 104 \<le> p" and hi: "p < block + 104 + 2 ^ k" using p unfolding H by simp_all
    show "head = 0 \<or> head + 16 \<le> ?h + 48 \<or> ?h + 92 \<le> head + 8"
      unfolding H using c lo hi md s(1) by linarith
  qed
  note F = allocated_memory_fields[OF s y, of block "2 ^ k" f c flags cnt fn fl m1, folded M_def]
  show d: "decode dbg M p = (u64 f, u64 c, s, 2 ^ k, ?h - block)"
    unfolding decode_def header_Function_def header_Context_def header_Size_def
      header_Alignment_def header_AlignmentPadding_def F ss ua uap ..
  show "raw_block dbg M p = block"
    unfolding raw_block_def header_AlignmentPadding_def F uap by simp
qed

lemma general_allocate_keeps_decode:
  fixes v v' :: "'s world" and fn fl :: int
  assumes a: "clamped_alignment cx a0 = 2 ^ k" "3 \<le> k" "k \<le> 15"
      "a0 = 0 \<longrightarrow> is_pow_of_2 (AllocAlignment cx)"
    and s: "0 \<le> s" "s < 2 ^ 63"
    and call: "ft f ALLOCATE c (total_size dbg s (2 ^ k)) 0 0 (opts OR AllocOptions cx) (Mem v) (Backing v)
                 = (block, o1, m1, st1)"
    and b0: "block \<noteq> 0"
    and out: "q \<le> block \<or> block + u64 (total_size dbg s (2 ^ k)) \<le> q - sizeof_allocation_header dbg"
    and lv: "\<forall>x. q - sizeof_allocation_header dbg \<le> x \<and> x < q \<longrightarrow> m1 x = Mem v x"
    and hd: "dbg \<longrightarrow> DEBUG_Head v = 0 \<or> DEBUG_Head v = q - 104 \<or> DEBUG_Head v + 104 \<le> q - 104 \<or>
                q \<le> DEBUG_Head v"
    and ret: "general_allocate dbg ft cx (f, c) s a0 opts fn fl v = Some (Inr (p, v'))"
  shows "decode dbg (Mem v') q = decode dbg (Mem v) q"
proof (rule decode_cong, intro allI impI)
  let ?H = "sizeof_allocation_header dbg"
  let ?T = "total_size dbg s (2 ^ k)"
  let ?e = "(if dbg then 4 else 0 :: int)"
  fix x assume x: "q - ?H + off_Function dbg \<le> x \<and> x < q - ?H + off_AlignmentPadding dbg + 2"
  note pb = pow2_bounds[OF a(2,3)]
  have ret': "general_allocate dbg ft cx (f, c) s (2 ^ k) opts fn fl v = Some (Inr (p, v'))"
    using ret unfolding general_allocate_clamped[OF a] .
  note R = general_allocate_returned[where ft=ft and f=f and c=c and dbg=dbg and s=s and opts=opts
      and cx=cx and w=v and fn=fn and fl=fl, OF a(2,3) call b0 ret']
  have ts: "u64 ?T = s + 2 ^ k + ?H + ?H mod 2 ^ k + ?e"
    using pb by (intro total_size_u64[OF s]) linarith+
  have md: "0 \<le> ?H mod (2::int) ^ k" by simp
  have Hp: "0 < ?H" by (simp add: sizeof_allocation_header_def)
  have xin: "q - ?H \<le> x" "x < q"
    using x by (cases dbg; simp add: offs)+
  have xf: "dbg \<Longrightarrow> q - 104 + 48 \<le> x" using x by (simp add: offs)
  have fr1: "x < p - ?H \<or> p - ?H + ?H + s + ?e \<le> x"
  proof -
    from out ts have "q \<le> block \<or> block + (s + 2 ^ k + ?H + ?H mod 2 ^ k + ?e) \<le> q - ?H" by simp
    then show ?thesis using xin R(1,2) md s(1) by linarith
  qed
  have fr2: "dbg \<longrightarrow> DEBUG_Head v = 0 \<or> x < DEBUG_Head v + 8 \<or> DEBUG_Head v + 16 \<le> x"
  proof
    assume dbg: dbg
    with hd have "DEBUG_Head v = 0 \<or> DEBUG_Head v = q - 104 \<or> DEBUG_Head v + 104 \<le> q - 104 \<or>
                q \<le> DEBUG_Head v" by simp
    then show "DEBUG_Head v = 0 \<or> x < DEBUG_Head v + 8 \<or> DEBUG_Head v + 16 \<le> x"
      using xf[OF dbg] xin(2) by linarith
  qed
  have "Mem v' x = m1 x"
    unfolding R(4) by (rule allocated_memory_frame[OF s fr1 fr2])
  also have "m1 x = Mem v x" using lv xin by simp
  finally show "Mem v' x = Mem v x" .
qed

subsection \<open>Alignment of the returned pointer and the stored size\<close>




subsection \<open>The size passed to \<open>FREE\<close>\<close>

text \<open>
  C10, as stated for every power-of-two alignment, fails: the header keeps the
  alignment in 16 bits.  In a release build an allocation of 16 bytes with alignment
  \<open>2^16 = 65536\<close> from a raw block at \<open>0x1000\<close> returns 65536 with \<open>Size = 16\<close>, but its
  header stores \<open>Alignment = 0\<close>; \<open>general_free\<close> computes
  \<open>sizeof(allocation_header) % header->Alignment\<close>, a division by zero, and never calls
  \<open>FREE\<close>.
\<close>

theorem general_free_wide_alignment_counterexample:
  "map_option (map_sum id Calls) wide_alignment_freed = Some (Inl Division_by_zero)"
  by code_simp

text \<open>
  C10, amended: let an allocation be made by \<open>general_allocate\<close> with \<open>0 \<le> s < 2^63\<close> and
  a clamped alignment \<open>2^k\<close> from 8 to 32768 (the argument, the default of the context
  for 0, at least the pointer size) from a raw block that is not null and, in a debug
  build, does not overlap the header at the head of the tracker list; the function and
  the context of the allocator are 64-bit values.  Let it be freed by \<open>general_free\<close> in
  any later state in which its header still decodes as the allocation left it.  The allocation asked \<open>ALLOCATE\<close> for \<open>total_size\<close> bytes, and the
  free passes to \<open>FREE\<close>, with the same function and context, the raw block and as
  \<open>oldSize\<close> that same \<open>total_size\<close>.  \<open>general_free\<close> returns in a release build.  A
  later \<open>general_allocate\<close> leaves the header as it decodes when its raw block lies
  outside the header, the allocator function does not write into the header, and in a
  debug build the head of the tracker list (whose \<open>DEBUG_Previous\<close> link
  \<open>DEBUG_add_header\<close> sets) is this header or lies outside it.
\<close>

theorem general_free_passes_allocated_size:
  fixes w w1 w2 :: "'s world" and fn fl :: int
  assumes a: "clamped_alignment cx alignment = 2 ^ k" "3 \<le> k" "k \<le> 15"
      "alignment = 0 \<longrightarrow> is_pow_of_2 (AllocAlignment cx)"
    and s: "0 \<le> s" "s < 2 ^ 63"
    and fc: "0 \<le> f" "f < 2 ^ 64" "0 \<le> c" "c < 2 ^ 64"
    and call: "ft f ALLOCATE c (total_size dbg s (2 ^ k)) 0 0 (opts OR AllocOptions cx) (Mem w) (Backing w)
                 = (block, o1, m1, st1)"
    and b0: "0 < block"
    and clear: "dbg \<longrightarrow> DEBUG_Head w = 0 \<or> DEBUG_Head w + 104 \<le> block \<or>
                  block + u64 (total_size dbg s (2 ^ k)) \<le> DEBUG_Head w"
    and ret: "general_allocate dbg ft cx (f, c) s alignment opts fn fl w = Some (Inr (p, w1))"
    and later: "decode dbg (Mem w2) p = decode dbg (Mem w1) p"
  shows "Calls w1 = Calls w @ [(ALLOCATE, f, c, total_size dbg s (2 ^ k), 0, 0)] \<and>
         (\<forall>w3. general_free dbg ft cx' p opts' w2 = Some (Inr w3) \<longrightarrow>
            Calls w3 = Calls w2 @ [(FREE, f, c, 0, block, total_size dbg s (2 ^ k))]) \<and>
         (\<not> dbg \<longrightarrow> (\<exists>w3. general_free dbg ft cx' p opts' w2 = Some (Inr w3))) \<and>
         (\<forall>cx2 f2 c2 s2 a2 k2 o2 fn2 fl2 block2 oo2 mm2 st2 q (v :: 's world) v'.
            clamped_alignment cx2 a2 = 2 ^ k2 \<and> 3 \<le> k2 \<and> k2 \<le> 15 \<and>
            (a2 = 0 \<longrightarrow> is_pow_of_2 (AllocAlignment cx2)) \<and> 0 \<le> s2 \<and> s2 < 2 ^ 63 \<and>
            ft f2 ALLOCATE c2 (total_size dbg s2 (2 ^ k2)) 0 0 (o2 OR AllocOptions cx2) (Mem v) (Backing v)
               = (block2, oo2, mm2, st2) \<and>
            block2 \<noteq> 0 \<and>
            (p \<le> block2 \<or> block2 + u64 (total_size dbg s2 (2 ^ k2)) \<le> p - sizeof_allocation_header dbg) \<and>
            (\<forall>x. p - sizeof_allocation_header dbg \<le> x \<and> x < p \<longrightarrow> mm2 x = Mem v x) \<and>
            (dbg \<longrightarrow> DEBUG_Head v = 0 \<or> DEBUG_Head v = p - 104 \<or> DEBUG_Head v + 104 \<le> p - 104 \<or>
                p \<le> DEBUG_Head v) \<and>
            general_allocate dbg ft cx2 (f2, c2) s2 a2 o2 fn2 fl2 v = Some (Inr (q, v'))
            \<longrightarrow> decode dbg (Mem v') p = decode dbg (Mem v) p)"
proof (intro conjI allI impI)
  let ?H = "sizeof_allocation_header dbg"
  let ?T = "total_size dbg s (2 ^ k)"
  have bn: "block \<noteq> 0" using b0 by simp
  have ret': "general_allocate dbg ft cx (f, c) s (2 ^ k) opts fn fl w = Some (Inr (p, w1))"
    using ret unfolding general_allocate_clamped[OF a] .
  note R = general_allocate_returned[where ft=ft and f=f and c=c and dbg=dbg and s=s and opts=opts
      and cx=cx and w=w and fn=fn and fl=fl, OF a(2,3) call bn ret']
  note D = allocated_decode[OF a(2,3) s R(1,2) clear, of f c o1 "AllocationCount w" fn fl m1,
      folded R(4)]
  have uf: "u64 f = f" using fc(1,2) by (intro u64_id) simp_all
  have uc: "u64 c = c" using fc(3,4) by (intro u64_id) simp_all
  have d2: "decode dbg (Mem w2) p = (f, c, s, 2 ^ k, p - ?H - block)"
    unfolding later D(1) uf uc ..
  have F: "header_Function dbg (Mem w2) p = f" "header_Context dbg (Mem w2) p = c"
    "header_Size dbg (Mem w2) p = s" "header_Alignment dbg (Mem w2) p = 2 ^ k"
    "header_AlignmentPadding dbg (Mem w2) p = p - ?H - block"
    using d2 by (simp_all add: decode_def)
  have rb: "raw_block dbg (Mem w2) p = block" unfolding raw_block_def F by simp
  have Hp: "0 < ?H" by (simp add: sizeof_allocation_header_def)
  have p0: "p \<noteq> 0" using R(1) b0 Hp by linarith
  show "Calls w1 = Calls w @ [(ALLOCATE, f, c, ?T, 0, 0)]" by (rule R(6))
  {
    fix w3 assume fr: "general_free dbg ft cx' p opts' w2 = Some (Inr w3)"
    from general_free_call(1)[OF p0 fr]
    show "Calls w3 = Calls w2 @ [(FREE, f, c, 0, block, ?T)]" unfolding F rb .
  }
  {
    assume rel: "\<not> dbg"
    then have T: "dbg = False" by simp
    have al: "header_Alignment False (Mem w2) p \<noteq> 0" using F(4) unfolding T by simp
    show "\<exists>w3. general_free dbg ft cx' p opts' w2 = Some (Inr w3)"
      unfolding T by (rule general_free_release_returns[OF p0 al])
  }
  {
    fix cx2 f2 c2 s2 a2 k2 o2 fn2 fl2 block2 oo2 mm2 st2 q and v v' :: "'s world"
    assume A: "clamped_alignment cx2 a2 = 2 ^ k2 \<and> 3 \<le> k2 \<and> k2 \<le> 15 \<and>
            (a2 = 0 \<longrightarrow> is_pow_of_2 (AllocAlignment cx2)) \<and> 0 \<le> s2 \<and> s2 < 2 ^ 63 \<and>
            ft f2 ALLOCATE c2 (total_size dbg s2 (2 ^ k2)) 0 0 (o2 OR AllocOptions cx2) (Mem v) (Backing v)
               = (block2, oo2, mm2, st2) \<and>
            block2 \<noteq> 0 \<and>
            (p \<le> block2 \<or> block2 + u64 (total_size dbg s2 (2 ^ k2)) \<le> p - sizeof_allocation_header dbg) \<and>
            (\<forall>x. p - sizeof_allocation_header dbg \<le> x \<and> x < p \<longrightarrow> mm2 x = Mem v x) \<and>
            (dbg \<longrightarrow> DEBUG_Head v = 0 \<or> DEBUG_Head v = p - 104 \<or> DEBUG_Head v + 104 \<le> p - 104 \<or>
                p \<le> DEBUG_Head v) \<and>
            general_allocate dbg ft cx2 (f2, c2) s2 a2 o2 fn2 fl2 v = Some (Inr (q, v'))"
    from A have 1: "clamped_alignment cx2 a2 = 2 ^ k2" by (elim conjE)
    from A have 2: "3 \<le> k2" by (elim conjE)
    from A have 3: "k2 \<le> 15" by (elim conjE)
    from A have 4: "a2 = 0 \<longrightarrow> is_pow_of_2 (AllocAlignment cx2)" by (elim conjE)
    from A have 5: "0 \<le> s2" by (elim conjE)
    from A have 6: "s2 < 2 ^ 63" by (elim conjE)
    from A have 7: "ft f2 ALLOCATE c2 (total_size dbg s2 (2 ^ k2)) 0 0 (o2 OR AllocOptions cx2) (Mem v) (Backing v)
               = (block2, oo2, mm2, st2)" by (elim conjE)
    from A have 8: "block2 \<noteq> 0" by (elim conjE)
    from A have 9: "p \<le> block2 \<or> block2 + u64 (total_size dbg s2 (2 ^ k2)) \<le> p - sizeof_allocation_header dbg"
      by (elim conjE)
    from A have 10: "\<forall>x. p - sizeof_allocation_header dbg \<le> x \<and> x < p \<longrightarrow> mm2 x = Mem v x"
      by (elim conjE)
    from A have 11: "dbg \<longrightarrow> DEBUG_Head v = 0 \<or> DEBUG_Head v = p - 104 \<or> DEBUG_Head v + 104 \<le> p - 104 \<or>
                p \<le> DEBUG_Head v" by (elim conjE)
    from A have 12: "general_allocate dbg ft cx2 (f2, c2) s2 a2 o2 fn2 fl2 v = Some (Inr (q, v'))"
      by (elim conjE)
    show "decode dbg (Mem v') p = decode dbg (Mem v) p"
      by (rule general_allocate_keeps_decode[where ft=ft and f=f2 and c=c2 and opts=o2 and cx=cx2
            and fn=fn2 and fl=fl2, OF 1 2 3 4 5 6 7 8 9 10 11 12])
  }
qed

theorem general_free_passes_allocated_size_witness:
  "\<exists>p w1 q w2 w3.
      general_allocate True function_table default_context (1, 0) 200 0 0 0 0 (empty_world 0x1000)
        = Some (Inr (p, w1)) \<and>
      general_allocate True function_table default_context (1, 0) 64 16 0 0 0 w1
        = Some (Inr (q, w2)) \<and>
      general_free True function_table default_context p 0 w2 = Some (Inr w3) \<and>
      Calls w3 = [(ALLOCATE, 1, 0, 316, 0, 0), (ALLOCATE, 1, 0, 196, 0, 0), (FREE, 1, 0, 0, 0x1000, 316)]"
proof -
  have a: "clamped_alignment default_context 0 = 2 ^ 3" "(3::nat) \<le> 3" "(3::nat) \<le> 15"
    "(0::int) = 0 \<longrightarrow> is_pow_of_2 (AllocAlignment default_context)"
    by code_simp+
  have s: "(0::int) \<le> 200" "(200::int) < 2 ^ 63" by simp_all
  have fc: "(0::int) \<le> 1" "(1::int) < 2 ^ 64" "(0::int) \<le> 0" "(0::int) < 2 ^ 64" by simp_all
  have b0: "(0::int) < 0x1000" by simp
  have ts: "total_size True 200 (2 ^ 3) = 316" by code_simp
  have call: "function_table 1 ALLOCATE 0 (total_size True 200 (2 ^ 3)) 0 0
                (0 OR AllocOptions default_context) (Mem (empty_world 0x1000))
                (Backing (empty_world 0x1000))
              = (0x1000, 0, Mem (empty_world 0x1000), 4412)"
    unfolding ts by (simp add: function_table_def bump_allocator_def default_context_def empty_world_def)
  have clear: "True \<longrightarrow> DEBUG_Head (empty_world 0x1000) = 0 \<or>
                 DEBUG_Head (empty_world 0x1000) + 104 \<le> 0x1000 \<or>
                 0x1000 + u64 (total_size True 200 (2 ^ 3)) \<le> DEBUG_Head (empty_world 0x1000)"
    by (simp add: empty_world_def)
  have cw: "Calls (empty_world 0x1000) = []" by (simp add: empty_world_def)
  define X where "X = general_allocate True function_table default_context (1, 0) 200 0 0 0 0
                        (empty_world 0x1000)"
  have ev: "case X of
          Some (Inr (p, w1)) \<Rightarrow>
            (case general_allocate True function_table default_context (1, 0) 64 16 0 0 0 w1 of
               Some (Inr (q, w2)) \<Rightarrow>
                 decode True (Mem w2) p = decode True (Mem w1) p \<and>
                 Calls w2 = [(ALLOCATE, 1, 0, 316, 0, 0), (ALLOCATE, 1, 0, 196, 0, 0)] \<and>
                 (case general_free True function_table default_context p 0 w2 of
                    Some (Inr w3) \<Rightarrow> True | _ \<Rightarrow> False)
             | _ \<Rightarrow> False)
        | _ \<Rightarrow> False"
    unfolding X_def by code_simp
  obtain p w1 where rX: "X = Some (Inr (p, w1))"
    using ev by (cases X) (auto split: sum.splits)
  define Y where "Y = general_allocate True function_table default_context (1, 0) 64 16 0 0 0 w1"
  have ev2: "case Y of
               Some (Inr (q, w2)) \<Rightarrow>
                 decode True (Mem w2) p = decode True (Mem w1) p \<and>
                 Calls w2 = [(ALLOCATE, 1, 0, 316, 0, 0), (ALLOCATE, 1, 0, 196, 0, 0)] \<and>
                 (case general_free True function_table default_context p 0 w2 of
                    Some (Inr w3) \<Rightarrow> True | _ \<Rightarrow> False)
             | _ \<Rightarrow> False"
    using ev unfolding rX Y_def by simp
  obtain q w2 where rY: "Y = Some (Inr (q, w2))"
    using ev2 by (cases Y) (auto split: sum.splits)
  define Z where "Z = general_free True function_table default_context p 0 w2"
  have ev3: "decode True (Mem w2) p = decode True (Mem w1) p \<and>
             Calls w2 = [(ALLOCATE, 1, 0, 316, 0, 0), (ALLOCATE, 1, 0, 196, 0, 0)] \<and>
             (case Z of Some (Inr w3) \<Rightarrow> True | _ \<Rightarrow> False)"
    using ev2 unfolding rY Z_def by simp
  from ev3 have later: "decode True (Mem w2) p = decode True (Mem w1) p" by (elim conjE)
  from ev3 have c2: "Calls w2 = [(ALLOCATE, 1, 0, 316, 0, 0), (ALLOCATE, 1, 0, 196, 0, 0)]"
    by (elim conjE)
  from ev3 have ev4: "case Z of Some (Inr w3) \<Rightarrow> True | _ \<Rightarrow> False" by (elim conjE)
  obtain w3 where rZ: "Z = Some (Inr w3)"
    using ev4 by (cases Z) (auto split: sum.splits)
  note r = rX[unfolded X_def] and r2 = rY[unfolded Y_def] and fr = rZ[unfolded Z_def]
  note T = general_free_passes_allocated_size[where ft=function_table and f=1 and c=0 and dbg=True
      and s=200 and k=3 and opts=0 and cx=default_context and w="empty_world 0x1000" and fn=0
      and fl=0 and alignment=0 and cx'=default_context and opts'=0,
      OF a s fc call b0 clear r later]
  from T have "\<forall>w3. general_free True function_table default_context p 0 w2 = Some (Inr w3) \<longrightarrow>
            Calls w3 = Calls w2 @ [(FREE, 1, 0, 0, 0x1000, total_size True 200 (2 ^ 3))]"
    by (elim conjE)
  with fr have "Calls w3 = Calls w2 @ [(FREE, 1, 0, 0, 0x1000, total_size True 200 (2 ^ 3))]"
    by simp
  then have c3: "Calls w3 = [(ALLOCATE, 1, 0, 316, 0, 0), (ALLOCATE, 1, 0, 196, 0, 0),
                             (FREE, 1, 0, 0, 0x1000, 316)]"
    unfolding c2 ts by simp
  show ?thesis
    by (rule exI[of _ p], rule exI[of _ w1], rule exI[of _ q], rule exI[of _ w2], rule exI[of _ w3])
       (intro conjI r r2 fr c3)
qed

subsection \<open>Freeing twice\<close>




end
